theory Spec2Isabelle
  imports Complex_Main "HOL-Library.Char_ord" "HOL-Library.List_Lexorder"
begin

section \<open>Endpoint rule table (package config)\<close>

text \<open>
  A compiled regular expression is used by the program only through
  \<^verbatim>\<open>MatchString\<close>; it is modelled by that predicate. A \<^verbatim>\<open>time.Duration\<close> is
  its number of nanoseconds. A Go map of the configuration is an association list
  (the program only ranges over it and takes its length); the query parameters of a
  request, which are only looked up, are a partial function.
\<close>

type_synonym Regexp = "string \<Rightarrow> bool"
type_synonym Duration = int
type_synonym Values = "string \<rightharpoonup> string list"

record EndpointCacheConfig =
  Path :: string
  PathRegex :: string
  Methods :: "string list"
  TTL :: Duration
  CacheKeyHeaders :: "string list"
  CacheKeyQueryParams :: "string list"
  MatchQueryParams :: "(string \<times> string list) list"
  MatchQueryParamsRegex :: "(string \<times> string list) list"
  compiledRegex :: "Regexp option"
  compiledQueryParamRegex :: "(string \<times> Regexp list) list"

record EndpointRateLimitConfig =
  rl_Path :: string
  rl_PathRegex :: string
  rl_RequestsPerSecond :: real
  rl_Burst :: int
  rl_compiledRegex :: "Regexp option"

datatype MatchType =
    MatchTypeExact
  | MatchTypeRegex
  | MatchTypeQueryParam
  | MatchTypeFallbackExact
  | MatchTypeFallbackRegex
  | MatchTypeDefault

record EndpointMatch =
  Config :: "EndpointCacheConfig option"
  MatchType :: MatchType

subsection \<open>GetEndpointCacheConfigMatch\<close>

text \<open>The path test of one rule: exact string first, else the compiled pattern.\<close>

definition pathMatch :: "EndpointCacheConfig \<Rightarrow> string \<Rightarrow> MatchType option" where
  "pathMatch ep path =
     (if Path ep \<noteq> [] \<and> Path ep = path then Some MatchTypeExact
      else (case compiledRegex ep of
              None \<Rightarrow> None
            | Some re \<Rightarrow> if re path then Some MatchTypeRegex else None))"

definition hasQueryParamMatching :: "EndpointCacheConfig \<Rightarrow> bool" where
  "hasQueryParamMatching ep =
     (length (MatchQueryParams ep) > 0 \<or> length (compiledQueryParamRegex ep) > 0)"

text \<open>
  One entry of \<^verbatim>\<open>MatchQueryParams\<close>: the parameter must exist with at least one
  value, and its first value must be one of the allowed values.
\<close>

definition exactParamOk :: "Values \<Rightarrow> string \<times> string list \<Rightarrow> bool" where
  "exactParamOk queryParams c =
     (case queryParams (fst c) of
        None \<Rightarrow> False
      | Some vs \<Rightarrow> (case vs of [] \<Rightarrow> False | v0 # _ \<Rightarrow> list_ex (\<lambda>v. v = v0) (snd c)))"

text \<open>One entry of \<^verbatim>\<open>compiledQueryParamRegex\<close>, with the patterns of the entry.\<close>

definition regexParamOk :: "Values \<Rightarrow> string \<times> Regexp list \<Rightarrow> bool" where
  "regexParamOk queryParams c =
     (case queryParams (fst c) of
        None \<Rightarrow> False
      | Some vs \<Rightarrow> (case vs of [] \<Rightarrow> False | v0 # _ \<Rightarrow> list_ex (\<lambda>re. re v0) (snd c)))"

text \<open>
  The two inner loops leave \<^verbatim>\<open>allParamsMatch\<close> true exactly when no entry fails;
  the order in which Go ranges over the two maps does not change that.
\<close>

definition allParamsMatch :: "EndpointCacheConfig \<Rightarrow> Values \<Rightarrow> bool" where
  "allParamsMatch ep queryParams =
     (list_all (exactParamOk queryParams) (MatchQueryParams ep) \<and>
      list_all (regexParamOk queryParams) (compiledQueryParamRegex ep))"

definition fallbackResult :: "(EndpointCacheConfig \<times> MatchType) option \<Rightarrow> EndpointMatch" where
  "fallbackResult fb =
     (case fb of
        Some (ep, t) \<Rightarrow>
          \<lparr>Config = Some ep,
           MatchType = (if t = MatchTypeRegex then MatchTypeFallbackRegex else MatchTypeFallbackExact)\<rparr>
      | None \<Rightarrow> \<lparr>Config = None, MatchType = MatchTypeDefault\<rparr>)"

text \<open>
  The loop over \<^verbatim>\<open>c.Cache.Endpoints\<close>; the last argument is the pair
  \<^verbatim>\<open>fallbackMatch\<close>, \<^verbatim>\<open>fallbackMatchType\<close> (\<open>None\<close> for the nil pointer).
\<close>

fun walkEndpoints ::
  "EndpointCacheConfig list \<Rightarrow> string \<Rightarrow> string \<Rightarrow> Values \<Rightarrow>
   (EndpointCacheConfig \<times> MatchType) option \<Rightarrow> EndpointMatch" where
  "walkEndpoints [] path method queryParams fb = fallbackResult fb"
| "walkEndpoints (ep # eps) path method queryParams fb =
     (if method \<notin> set (Methods ep) then walkEndpoints eps path method queryParams fb
      else (case pathMatch ep path of
              None \<Rightarrow> walkEndpoints eps path method queryParams fb
            | Some t \<Rightarrow>
                if \<not> hasQueryParamMatching ep then
                  walkEndpoints eps path method queryParams
                    (case fb of None \<Rightarrow> Some (ep, t) | Some f \<Rightarrow> Some f)
                else if allParamsMatch ep queryParams then
                  \<lparr>Config = Some ep, MatchType = MatchTypeQueryParam\<rparr>
                else walkEndpoints eps path method queryParams fb))"

definition GetEndpointCacheConfigMatch ::
  "EndpointCacheConfig list \<Rightarrow> string \<Rightarrow> string \<Rightarrow> Values \<Rightarrow> EndpointMatch" where
  "GetEndpointCacheConfigMatch endpoints path method queryParams =
     walkEndpoints endpoints path method queryParams None"

definition GetEndpointCacheConfig ::
  "EndpointCacheConfig list \<Rightarrow> string \<Rightarrow> string \<Rightarrow> Values \<Rightarrow> EndpointCacheConfig option" where
  "GetEndpointCacheConfig endpoints path method queryParams =
     Config (GetEndpointCacheConfigMatch endpoints path method queryParams)"

subsection \<open>GetEndpointRateLimitConfig\<close>

fun GetEndpointRateLimitConfig ::
  "EndpointRateLimitConfig list \<Rightarrow> string \<Rightarrow> EndpointRateLimitConfig option" where
  "GetEndpointRateLimitConfig [] path = None"
| "GetEndpointRateLimitConfig (ep # eps) path =
     (if rl_Path ep \<noteq> [] \<and> rl_Path ep = path then Some ep
      else if (case rl_compiledRegex ep of None \<Rightarrow> False | Some re \<Rightarrow> re path) then Some ep
      else GetEndpointRateLimitConfig eps path)"


subsection \<open>The resolution order as the specification words it\<close>

text \<open>
  The steps of the specification, each worded on the rule's own fields. Steps 1 and 2:
  the method must be a member of the rule's methods, and the path must equal the
  rule's exact path (a rule without one has the empty string there) or else match its
  compiled pattern, if it has one.
\<close>

definition ruleApplies_spec :: "EndpointCacheConfig \<Rightarrow> string \<Rightarrow> string \<Rightarrow> bool" where
  "ruleApplies_spec ep path method =
     (method \<in> set (Methods ep) \<and>
      ((Path ep \<noteq> [] \<and> path = Path ep) \<or>
       (case compiledRegex ep of Some re \<Rightarrow> re path | None \<Rightarrow> False)))"

text \<open>Step 3: a rule discriminates when it has an allow-list map or a pattern map.\<close>

definition discriminating_spec :: "EndpointCacheConfig \<Rightarrow> bool" where
  "discriminating_spec ep = (MatchQueryParams ep \<noteq> [] \<or> compiledQueryParamRegex ep \<noteq> [])"

text \<open>
  Step 4: every constraint holds. The first value supplied for the parameter must be
  one of the listed literals, respectively match one of the listed patterns; a
  parameter that supplies no first value fails.
\<close>

definition firstValue_spec :: "Values \<Rightarrow> string \<Rightarrow> string option" where
  "firstValue_spec queryParams param =
     (case queryParams param of Some (v # vs) \<Rightarrow> Some v | _ \<Rightarrow> None)"

definition constraintsHold_spec :: "EndpointCacheConfig \<Rightarrow> Values \<Rightarrow> bool" where
  "constraintsHold_spec ep queryParams =
     ((\<forall>(param, allowed) \<in> set (MatchQueryParams ep).
         case firstValue_spec queryParams param of
           Some v \<Rightarrow> v \<in> set allowed | None \<Rightarrow> False) \<and>
      (\<forall>(param, patterns) \<in> set (compiledQueryParamRegex ep).
         case firstValue_spec queryParams param of
           Some v \<Rightarrow> (\<exists>re \<in> set patterns. re v) | None \<Rightarrow> False))"

text \<open>A rule wins a request: it applies, it discriminates, and all its constraints hold.\<close>

definition ruleWins_spec :: "EndpointCacheConfig \<Rightarrow> string \<Rightarrow> string \<Rightarrow> Values \<Rightarrow> bool" where
  "ruleWins_spec ep path method queryParams =
     (ruleApplies_spec ep path method \<and> discriminating_spec ep \<and>
      constraintsHold_spec ep queryParams)"

text \<open>
  Steps 4 to 6: the first rule of the list that wins; otherwise the first rule that
  applies and does not discriminate, tagged by the way its path matched; otherwise no
  rule.
\<close>

definition resolveCache_spec ::
  "EndpointCacheConfig list \<Rightarrow> string \<Rightarrow> string \<Rightarrow> Values \<Rightarrow> EndpointMatch" where
  "resolveCache_spec endpoints path method queryParams =
     (case find (\<lambda>ep. ruleWins_spec ep path method queryParams) endpoints of
        Some ep \<Rightarrow> \<lparr>Config = Some ep, MatchType = MatchTypeQueryParam\<rparr>
      | None \<Rightarrow>
          (case find (\<lambda>ep. ruleApplies_spec ep path method \<and> \<not> discriminating_spec ep) endpoints of
             Some ep \<Rightarrow>
               \<lparr>Config = Some ep,
                MatchType = (if Path ep \<noteq> [] \<and> path = Path ep
                             then MatchTypeFallbackExact else MatchTypeFallbackRegex)\<rparr>
           | None \<Rightarrow> \<lparr>Config = None, MatchType = MatchTypeDefault\<rparr>))"

text \<open>
  The specification's reading of rate-limit resolution: an exact-path rule anywhere in
  the list first, only otherwise the first rule whose pattern matches.
\<close>

definition resolveRateLimit_spec ::
  "EndpointRateLimitConfig list \<Rightarrow> string \<Rightarrow> EndpointRateLimitConfig option" where
  "resolveRateLimit_spec endpoints path =
     (case find (\<lambda>ep. rl_Path ep \<noteq> [] \<and> rl_Path ep = path) endpoints of
        Some ep \<Rightarrow> Some ep
      | None \<Rightarrow>
          find (\<lambda>ep. case rl_compiledRegex ep of None \<Rightarrow> False | Some re \<Rightarrow> re path) endpoints)"

subsection \<open>The rule tables of the test suite\<close>

definition hour :: Duration where "hour = 3600000000000"
definition minute :: Duration where "minute = 60000000000"
definition second :: Duration where "second = 1000000000"
definition millisecond :: Duration where "millisecond = 1000000"

definition emptyRule :: EndpointCacheConfig where
  "emptyRule =
     \<lparr>Path = [], PathRegex = [], Methods = [], TTL = 0, CacheKeyHeaders = [],
      CacheKeyQueryParams = [], MatchQueryParams = [], MatchQueryParamsRegex = [],
      compiledRegex = None, compiledQueryParamRegex = []\<rparr>"

text \<open>The three rules for \<^verbatim>\<open>/query\<close> of \<^verbatim>\<open>TestGetEndpointCacheConfig_QueryParamExactMatch\<close>.\<close>

definition queryRuleDaily :: EndpointCacheConfig where
  "queryRuleDaily =
     emptyRule\<lparr>Path := ''/query'', Methods := [''GET''], TTL := 24 * hour,
       MatchQueryParams := [(''function'', [''EOD'', ''WEEKLY'', ''MONTHLY''])]\<rparr>"

definition queryRuleIntraday :: EndpointCacheConfig where
  "queryRuleIntraday =
     emptyRule\<lparr>Path := ''/query'', Methods := [''GET''], TTL := 5 * minute,
       MatchQueryParams := [(''function'', [''INTRADAY''])]\<rparr>"

definition queryRuleFallback :: EndpointCacheConfig where
  "queryRuleFallback = emptyRule\<lparr>Path := ''/query'', Methods := [''GET''], TTL := 1 * hour\<rparr>"

definition queryRules :: "EndpointCacheConfig list" where
  "queryRules = [queryRuleDaily, queryRuleIntraday, queryRuleFallback]"


text \<open>
  \<open>prefixApiV1\<close> is the compiled \<^verbatim>\<open>^/api/v1/.*\<close>. Three more cache rules: the daily rule
  on another path, a pattern rule without discrimination, and a pattern rule that
  discriminates on \<^verbatim>\<open>format\<close>.
\<close>

definition prefixApiV1 :: Regexp where
  "prefixApiV1 path = (take 8 path = ''/api/v1/'')"

definition reportRuleDaily :: EndpointCacheConfig where
  "reportRuleDaily = queryRuleDaily\<lparr>Path := ''/report'', TTL := 12 * hour\<rparr>"

definition apiPatternRule :: EndpointCacheConfig where
  "apiPatternRule =
     emptyRule\<lparr>PathRegex := ''^/api/v1/.*'', Methods := [''GET'', ''HEAD''], TTL := 10 * minute,
       compiledRegex := Some prefixApiV1\<rparr>"

definition apiFormatRule :: EndpointCacheConfig where
  "apiFormatRule =
     emptyRule\<lparr>PathRegex := ''^/api/v1/.*'', Methods := [''GET''], TTL := 2 * minute,
       MatchQueryParams := [(''format'', [''csv''])], compiledRegex := Some prefixApiV1\<rparr>"

text \<open>
  A rate-limit table that lists a pattern rule before an exact rule for a path the
  pattern also matches.
\<close>

definition rlPatternRule :: EndpointRateLimitConfig where
  "rlPatternRule =
     \<lparr>rl_Path = [], rl_PathRegex = ''^/api/v1/.*'', rl_RequestsPerSecond = 5, rl_Burst = 10,
      rl_compiledRegex = Some prefixApiV1\<rparr>"

definition rlExactRule :: EndpointRateLimitConfig where
  "rlExactRule =
     \<lparr>rl_Path = ''/api/v1/search'', rl_PathRegex = [], rl_RequestsPerSecond = 10, rl_Burst = 20,
      rl_compiledRegex = None\<rparr>"

text \<open>
  Two discriminated rules whose constraint is satisfied by an empty string: an
  allow-list that lists the empty string, and the pattern \<^verbatim>\<open>.*\<close> (\<open>matchAny\<close>).
\<close>

definition matchAny :: Regexp where
  "matchAny s = True"

definition allowEmptyRule :: EndpointCacheConfig where
  "allowEmptyRule =
     emptyRule\<lparr>Path := ''/query'', Methods := [''GET''], TTL := 24 * hour,
       MatchQueryParams := [(''function'', [[]])]\<rparr>"

definition patternAnyRule :: EndpointCacheConfig where
  "patternAnyRule =
     emptyRule\<lparr>Path := ''/query'', Methods := [''GET''], TTL := 5 * minute,
       MatchQueryParamsRegex := [(''symbol'', [''.*''])],
       compiledQueryParamRegex := [(''symbol'', [matchAny])]\<rparr>"

section \<open>Values shared by the packages\<close>

text \<open>
  A Go \<^verbatim>\<open>error\<close>: a message, or \<^verbatim>\<open>fmt.Errorf("msg: %w", err)\<close> around an error that
  may be nil.
\<close>

datatype error = Err string | Wrap string "error option"

type_synonym Time = int

text \<open>
  \<^verbatim>\<open>http.Header\<close> and \<^verbatim>\<open>url.Values\<close> are maps from a name to its list of values.
  The keys of a header map are in canonical form, as net/http keeps them; the literal
  keys the program passes to \<^verbatim>\<open>Set\<close> are canonical already.
\<close>

type_synonym Header = "string \<rightharpoonup> string list"

definition Values_Get :: "Values \<Rightarrow> string \<Rightarrow> string" where
  "Values_Get v key = (case v key of None \<Rightarrow> [] | Some vs \<Rightarrow> (case vs of [] \<Rightarrow> [] | x # _ \<Rightarrow> x))"

definition Header_Set :: "Header \<Rightarrow> string \<Rightarrow> string \<Rightarrow> Header" where
  "Header_Set h key val = h(key \<mapsto> [val])"

definition Header_Add :: "Header \<Rightarrow> string \<Rightarrow> string \<Rightarrow> Header" where
  "Header_Add h key val = h(key \<mapsto> (case h key of None \<Rightarrow> [] | Some vs \<Rightarrow> vs) @ [val])"

definition Header_Del :: "Header \<Rightarrow> string \<Rightarrow> Header" where
  "Header_Del h key = h(key := None)"

record Request =
  req_Method :: string
  req_Path :: string
  req_RawQuery :: string
  req_Query :: Values
  req_Header :: Header

text \<open>
  An upstream \<^verbatim>\<open>http.Response\<close>. Its body is a stream: the bytes it delivers and the
  error, if any, that ends the reading.
\<close>

record Response =
  resp_StatusCode :: int
  resp_Header :: Header
  resp_Body :: "string \<times> error option"

record CachedResponse =
  StatusCode :: int
  Headers :: Header
  Body :: string
  CachedAt :: Time

datatype RedisReply = RedisNil | RedisErr error | RedisBytes string

datatype Outcome = DoError error | DoResponse Response

text \<open>
  What the program does not define itself: library functions it calls, and the answers
  of the store, of the upstream and of the request context. \<open>upstream n\<close> is the answer
  to attempt \<open>n\<close> while the context is live; \<open>ctxDone n\<close> tells that the context is
  cancelled when attempt \<open>n\<close> is sent. Floating-point arithmetic is not modelled:
  \<open>mulDuration d m\<close> stands for \<^verbatim>\<open>time.Duration(float64(d) * m)\<close>.
\<close>

record Env =
  canonicalKey :: "string \<Rightarrow> string"
  sha256hex :: "string \<Rightarrow> string"
  formatRFC3339 :: "Time \<Rightarrow> string"
  mulDuration :: "Duration \<Rightarrow> real \<Rightarrow> Duration"
  jsonMarshal :: "CachedResponse \<Rightarrow> error + string"
  jsonUnmarshal :: "string \<Rightarrow> error + CachedResponse"
  redisGet :: "string \<Rightarrow> RedisReply"
  redisSet :: "string \<Rightarrow> string \<Rightarrow> Duration \<Rightarrow> error option"
  newRequest :: "string \<Rightarrow> string \<Rightarrow> error option"
  upstream :: "int \<Rightarrow> Outcome"
  ctxDone :: "int \<Rightarrow> bool"
  timeNow :: Time

record RetryConfig =
  Enabled :: bool
  MaxAttempts :: int
  InitialBackoff :: Duration
  MaxBackoff :: Duration
  BackoffMultiplier :: real
  RetryableStatusCodes :: "int list"

record CacheConfig =
  DefaultTTL :: Duration
  MaxTTL :: Duration
  Endpoints :: "EndpointCacheConfig list"

record UpstreamConfig =
  BaseURL :: string
  Timeout :: Duration
  MaxIdleConns :: int
  MaxConnsPerHost :: int

text \<open>The parts of \<^verbatim>\<open>Config\<close> that the handler reads.\<close>

record Config =
  Cache :: CacheConfig
  Retry :: RetryConfig
  Upstream :: UpstreamConfig

section \<open>Cache client (package cache)\<close>

subsection \<open>GenerateCacheKey\<close>

fun Join :: "string list \<Rightarrow> string \<Rightarrow> string" where
  "Join [] sep = []"
| "Join [x] sep = x"
| "Join (x # y # ys) sep = x @ sep @ Join (y # ys) sep"

text \<open>The loop over \<^verbatim>\<open>CacheKeyQueryParams\<close>: \<^verbatim>\<open>name=value\<close> for each non-empty value.\<close>

fun queryParts :: "Values \<Rightarrow> string list \<Rightarrow> string list" where
  "queryParts query [] = []"
| "queryParts query (param # params) =
     (let val = Values_Get query param in
      if val \<noteq> [] then (param @ ''='' @ val) # queryParts query params
      else queryParts query params)"

text \<open>The loop over \<^verbatim>\<open>CacheKeyHeaders\<close>; \<^verbatim>\<open>Header.Get\<close> canonicalises the name.\<close>

fun headerParts :: "Env \<Rightarrow> Header \<Rightarrow> string list \<Rightarrow> string list" where
  "headerParts E hdr [] = []"
| "headerParts E hdr (header # headers) =
     (let val = Values_Get hdr (canonicalKey E header) in
      if val \<noteq> [] then (header @ ''='' @ val) # headerParts E hdr headers
      else headerParts E hdr headers)"

definition keyParts :: "Env \<Rightarrow> Request \<Rightarrow> EndpointCacheConfig option \<Rightarrow> string list" where
  "keyParts E r endpointConfig =
     [req_Method r, req_Path r] @
     (case endpointConfig of
        None \<Rightarrow> []
      | Some ec \<Rightarrow>
          if length (CacheKeyQueryParams ec) > 0 then
            (let qp = sort (queryParts (req_Query r) (CacheKeyQueryParams ec)) in
             if length qp > 0 then [Join qp ''&''] else [])
          else []) @
     (case endpointConfig of
        None \<Rightarrow> []
      | Some ec \<Rightarrow>
          if length (CacheKeyHeaders ec) > 0 then
            (let hp = sort (headerParts E (req_Header r) (CacheKeyHeaders ec)) in
             if length hp > 0 then [Join hp ''|''] else [])
          else [])"

definition keyString :: "Env \<Rightarrow> Request \<Rightarrow> EndpointCacheConfig option \<Rightarrow> string" where
  "keyString E r endpointConfig = Join (keyParts E r endpointConfig) '':''"

definition GenerateCacheKey :: "Env \<Rightarrow> Request \<Rightarrow> EndpointCacheConfig option \<Rightarrow> string" where
  "GenerateCacheKey E r endpointConfig = ''cache:'' @ sha256hex E (keyString E r endpointConfig)"

text \<open>
  Both loops of \<^verbatim>\<open>GenerateCacheKey\<close> compute the same comprehension over the listed
  names, for a lookup \<open>G\<close> of the first value of a name (empty when there is none).
\<close>

definition partsOf :: "(string \<Rightarrow> string) \<Rightarrow> string list \<Rightarrow> string list" where
  "partsOf G names = map (\<lambda>n. n @ ''='' @ G n) (filter (\<lambda>n. G n \<noteq> []) names)"

text \<open>
  Rules and requests for the cache key: a rule whose key takes the parameter
  \<^verbatim>\<open>symbol\<close> and the header \<^verbatim>\<open>Authorization\<close>; a rule that lists the parameter names
  \<^verbatim>\<open>a\<close> and \<^verbatim>\<open>a=1&a\<close>.
\<close>

definition symbolRule :: EndpointCacheConfig where
  "symbolRule =
     emptyRule\<lparr>Path := ''/quote'', Methods := [''GET''], TTL := 1 * hour,
       CacheKeyHeaders := [''Authorization''], CacheKeyQueryParams := [''symbol'']\<rparr>"

definition oddNamesRule :: EndpointCacheConfig where
  "oddNamesRule =
     emptyRule\<lparr>Path := ''/quote'', Methods := [''GET''], TTL := 1 * hour,
       CacheKeyQueryParams := [''a'', ''a=1&a'']\<rparr>"

definition quoteRequest :: "Values \<Rightarrow> Request" where
  "quoteRequest query =
     \<lparr>req_Method = ''GET'', req_Path = ''/quote'', req_RawQuery = [], req_Query = query,
      req_Header = [''Authorization'' \<mapsto> [''Bearer token1'']]\<rparr>"

text \<open>
  A component of the key: the joined parts when there is at least one, else nothing.
\<close>

definition component :: "string list \<Rightarrow> string \<Rightarrow> string list" where
  "component parts sep = (if length parts > 0 then [Join parts sep] else [])"

subsection \<open>Get and Set\<close>

text \<open>\<^verbatim>\<open>Get\<close> returns the pair of Go: the entry (or nil) and the error (or nil).\<close>

definition Get :: "Env \<Rightarrow> string \<Rightarrow> CachedResponse option \<times> error option" where
  "Get E key =
     (case redisGet E key of
        RedisNil \<Rightarrow> (None, None)
      | RedisErr err \<Rightarrow> (None, Some (Wrap ''failed to get cache'' (Some err)))
      | RedisBytes data \<Rightarrow>
          (case jsonUnmarshal E data of
             Inl err \<Rightarrow> (None, Some (Wrap ''failed to unmarshal cached response'' (Some err)))
           | Inr cached \<Rightarrow> (Some cached, None)))"

definition Set :: "Env \<Rightarrow> string \<Rightarrow> CachedResponse \<Rightarrow> Duration \<Rightarrow> error option" where
  "Set E key response ttl =
     (case jsonMarshal E response of
        Inl err \<Rightarrow> Some (Wrap ''failed to marshal response'' (Some err))
      | Inr data \<Rightarrow>
          (case redisSet E key data ttl of
             Some err \<Rightarrow> Some (Wrap ''failed to set cache'' (Some err))
           | None \<Rightarrow> None))"


section \<open>Proxy handler (package proxy)\<close>

text \<open>
  The \<^verbatim>\<open>http.ResponseWriter\<close> of the server as state: the header map the handler
  fills, the informational status lines sent so far, the status of the response once
  written, and the body bytes handed to \<^verbatim>\<open>Write\<close>. What the server adds of its own when
  it puts the response on the wire (\<^verbatim>\<open>Date\<close>, a sniffed \<^verbatim>\<open>Content-Type\<close>, the framing
  of the body, its omission for a status or a method that allows none) is outside the
  model. A call on the writer can panic, which ends the
  handler: a handler either panics or is done and leaves the writer in a state. The
  handler also leaves a trace of the calls it makes to the store and to the upstream,
  and of its sleeps.
\<close>

datatype 'a completion = Panic string | Done 'a

record ResponseWriter =
  w_header :: Header
  w_interim :: "int list"
  w_status :: "int option"
  w_body :: string

datatype Event =
    EvCacheGet string
  | EvUpstream int string
  | EvSleep Duration
  | EvCacheSet string CachedResponse Duration "error option"

text \<open>
  \<^verbatim>\<open>WriteHeader\<close>: a call after the status is written is ignored (the server logs
  it); \<^verbatim>\<open>checkWriteHeaderCode\<close> panics on a code outside 100..999 (the message of Go
  ends with the code); an informational code (1xx other than 101) is sent at once and
  leaves the status to be written; any other code becomes the status of the response.
\<close>

definition WriteHeader :: "ResponseWriter \<Rightarrow> int \<Rightarrow> ResponseWriter completion" where
  "WriteHeader w code =
     (if w_status w \<noteq> None then Done w
      else if code < 100 \<or> code > 999 then Panic ''invalid WriteHeader code''
      else if code \<ge> 100 \<and> code \<le> 199 \<and> code \<noteq> 101 then
        Done (w\<lparr>w_interim := w_interim w @ [code]\<rparr>)
      else Done (w\<lparr>w_status := Some code\<rparr>))"

text \<open>
  \<^verbatim>\<open>Write\<close> first writes the status 200 when no status is written yet; so does the
  server when the handler returns without one.
\<close>

definition Write :: "ResponseWriter \<Rightarrow> string \<Rightarrow> ResponseWriter" where
  "Write w b =
     (let w1 = (if w_status w = None then w\<lparr>w_status := Some 200\<rparr> else w)
      in w1\<lparr>w_body := w_body w1 @ b\<rparr>)"

text \<open>
  \<^verbatim>\<open>http.Error\<close>: drops Content-Length, sets the content type of the plain-text
  message, writes the status and the message followed by a newline.
\<close>

definition http_Error :: "ResponseWriter \<Rightarrow> string \<Rightarrow> int \<Rightarrow> ResponseWriter completion" where
  "http_Error w msg code =
     (let h1 = Header_Del (w_header w) ''Content-Length'';
          h2 = Header_Set h1 ''Content-Type'' ''text/plain; charset=utf-8'';
          h3 = Header_Set h2 ''X-Content-Type-Options'' ''nosniff''
      in case WriteHeader (w\<lparr>w_header := h3\<rparr>) code of
           Panic msg' \<Rightarrow> Panic msg'
         | Done w1 \<Rightarrow> Done (Write w1 (msg @ [CHR 0x0A])))"

text \<open>
  The loops \<^verbatim>\<open>for key, values := range src { for _, value := range values { Add } }\<close>:
  every key of the source gets its values appended, in their order. The keys of the
  source are canonical (those of an upstream response are, and so are those of an
  entry the program stored), so that \<^verbatim>\<open>Add\<close> keeps each key and the keys do not
  interfere.
\<close>

definition copyHeaders :: "Header \<Rightarrow> Header \<Rightarrow> Header" where
  "copyHeaders src dst =
     (\<lambda>key. case src key of
               None \<Rightarrow> dst key
             | Some vs \<Rightarrow> if vs = [] then dst key
                          else Some ((case dst key of None \<Rightarrow> [] | Some ws \<Rightarrow> ws) @ vs))"

definition isRetryableStatus :: "Config \<Rightarrow> int \<Rightarrow> bool" where
  "isRetryableStatus cfg statusCode =
     (if \<not> Enabled (Retry cfg) then False
      else list_ex (\<lambda>code. code = statusCode) (RetryableStatusCodes (Retry cfg)))"

definition getTTL :: "Config \<Rightarrow> EndpointCacheConfig option \<Rightarrow> Duration" where
  "getTTL cfg endpointConfig =
     (case endpointConfig of
        Some ec \<Rightarrow> if TTL ec > 0 then TTL ec else DefaultTTL (Cache cfg)
      | None \<Rightarrow> DefaultTTL (Cache cfg))"

subsection \<open>forwardWithRetry\<close>

definition contextCanceled :: error where
  "contextCanceled = Err ''context canceled''"

text \<open>The client sends the request with the request context: a cancelled context fails the call.\<close>

definition clientDo :: "Env \<Rightarrow> int \<Rightarrow> Outcome" where
  "clientDo E attempt = (if ctxDone E attempt then DoError contextCanceled else upstream E attempt)"

definition nextBackoff :: "Env \<Rightarrow> Config \<Rightarrow> Duration \<Rightarrow> Duration" where
  "nextBackoff E cfg backoff =
     (let b = mulDuration E backoff (BackoffMultiplier (Retry cfg)) in
      if b > MaxBackoff (Retry cfg) then MaxBackoff (Retry cfg) else b)"

definition upstreamURL :: "Config \<Rightarrow> Request \<Rightarrow> string" where
  "upstreamURL cfg r =
     BaseURL (Upstream cfg) @ req_Path r @ (if req_RawQuery r \<noteq> [] then ''?'' @ req_RawQuery r else [])"

definition emit :: "Event list \<Rightarrow> 'a \<times> Event list \<Rightarrow> 'a \<times> Event list" where
  "emit evs res = (fst res, evs @ snd res)"

text \<open>
  The loop \<^verbatim>\<open>for attempt := 1; attempt <= maxAttempts; attempt++\<close> with its local state
  \<^verbatim>\<open>backoff\<close> and \<^verbatim>\<open>lastErr\<close>. The result is the pair of Go as a sum: the error, or the
  response.
\<close>

function retryLoop ::
  "Env \<Rightarrow> Config \<Rightarrow> Request \<Rightarrow> int \<Rightarrow> int \<Rightarrow> Duration \<Rightarrow> error option \<Rightarrow>
   (error + Response) \<times> Event list" where
  "retryLoop E cfg r maxAttempts attempt backoff lastErr =
     (if attempt \<le> maxAttempts then
        (case newRequest E (req_Method r) (upstreamURL cfg r) of
           Some err \<Rightarrow> (Inl (Wrap ''failed to create upstream request'' (Some err)), [])
         | None \<Rightarrow>
             (case clientDo E attempt of
                DoError err \<Rightarrow>
                  if attempt < maxAttempts then
                    emit [EvUpstream attempt (upstreamURL cfg r), EvSleep backoff]
                      (retryLoop E cfg r maxAttempts (attempt + 1) (nextBackoff E cfg backoff) (Some err))
                  else (Inl (Wrap ''all retry attempts failed'' (Some err)),
                        [EvUpstream attempt (upstreamURL cfg r)])
              | DoResponse resp \<Rightarrow>
                  if isRetryableStatus cfg (resp_StatusCode resp) \<and> attempt < maxAttempts then
                    emit [EvUpstream attempt (upstreamURL cfg r), EvSleep backoff]
                      (retryLoop E cfg r maxAttempts (attempt + 1) (nextBackoff E cfg backoff) lastErr)
                  else (Inr resp, [EvUpstream attempt (upstreamURL cfg r)])))
      else (Inl (Wrap ''all retry attempts failed'' lastErr), []))"
  by pat_completeness auto
termination
  by (relation "measure (\<lambda>(E, cfg, r, maxAttempts, attempt, backoff, lastErr).
                  nat (maxAttempts + 1 - attempt))") auto

declare retryLoop.simps [simp del]

definition forwardWithRetry :: "Env \<Rightarrow> Config \<Rightarrow> Request \<Rightarrow> (error + Response) \<times> Event list" where
  "forwardWithRetry E cfg r =
     retryLoop E cfg r (if Enabled (Retry cfg) then MaxAttempts (Retry cfg) else 1) 1
       (InitialBackoff (Retry cfg)) None"

subsection \<open>The handlers\<close>

definition serveCachedResponse ::
  "Env \<Rightarrow> ResponseWriter \<Rightarrow> CachedResponse \<Rightarrow> ResponseWriter completion" where
  "serveCachedResponse E w cached =
     (let h1 = copyHeaders (Headers cached) (w_header w);
          h2 = Header_Set h1 ''X-Cache'' ''HIT'';
          h3 = Header_Set h2 ''X-Cache-Time'' (formatRFC3339 E (CachedAt cached))
      in case WriteHeader (w\<lparr>w_header := h3\<rparr>) (StatusCode cached) of
           Panic msg \<Rightarrow> Panic msg
         | Done w1 \<Rightarrow> Done (Write w1 (Body cached)))"

text \<open>
  The store write comes before the status is written: when \<^verbatim>\<open>WriteHeader\<close> panics the
  trace is complete.
\<close>

definition forwardAndCache ::
  "Env \<Rightarrow> Config \<Rightarrow> ResponseWriter \<Rightarrow> Request \<Rightarrow> string \<Rightarrow> EndpointCacheConfig option \<Rightarrow>
   ResponseWriter completion \<times> Event list" where
  "forwardAndCache E cfg w r cacheKey endpointConfig =
     (case forwardWithRetry E cfg r of
        (Inl err, evs) \<Rightarrow> (http_Error w ''upstream service unavailable'' 502, evs)
      | (Inr resp, evs) \<Rightarrow>
          (case resp_Body resp of
             (partial, Some err) \<Rightarrow> (http_Error w ''failed to read upstream response'' 500, evs)
           | (body, None) \<Rightarrow>
               (let evs2 =
                      (if resp_StatusCode resp \<ge> 200 \<and> resp_StatusCode resp < 300 then
                         (let cachedResp = \<lparr>StatusCode = resp_StatusCode resp, Headers = resp_Header resp,
                                            Body = body, CachedAt = timeNow E\<rparr>;
                              ttl = getTTL cfg endpointConfig
                          in [EvCacheSet cacheKey cachedResp ttl (Set E cacheKey cachedResp ttl)])
                       else []);
                    h1 = copyHeaders (resp_Header resp) (w_header w);
                    h2 = Header_Set h1 ''X-Cache'' ''MISS''
                in (case WriteHeader (w\<lparr>w_header := h2\<rparr>) (resp_StatusCode resp) of
                      Panic msg \<Rightarrow> Panic msg
                    | Done w1 \<Rightarrow> Done (Write w1 body),
                    evs @ evs2))))"

text \<open>\<^verbatim>\<open>io.Copy\<close> writes the bytes the body delivers; its error is dropped.\<close>

definition forwardRequest ::
  "Env \<Rightarrow> Config \<Rightarrow> ResponseWriter \<Rightarrow> Request \<Rightarrow> ResponseWriter completion \<times> Event list" where
  "forwardRequest E cfg w r =
     (case forwardWithRetry E cfg r of
        (Inl err, evs) \<Rightarrow> (http_Error w ''upstream service unavailable'' 502, evs)
      | (Inr resp, evs) \<Rightarrow>
          (let h1 = copyHeaders (resp_Header resp) (w_header w)
           in (case WriteHeader (w\<lparr>w_header := h1\<rparr>) (resp_StatusCode resp) of
                 Panic msg \<Rightarrow> Panic msg
               | Done w1 \<Rightarrow> Done (Write w1 (fst (resp_Body resp))),
               evs)))"

definition ServeHTTP ::
  "Env \<Rightarrow> Config \<Rightarrow> ResponseWriter \<Rightarrow> Request \<Rightarrow> ResponseWriter completion \<times> Event list" where
  "ServeHTTP E cfg w r =
     (if req_Method r \<noteq> ''GET'' then forwardRequest E cfg w r
      else
        (let endpointConfig =
               GetEndpointCacheConfig (Endpoints (Cache cfg)) (req_Path r) (req_Method r) (req_Query r);
             cacheKey = GenerateCacheKey E r endpointConfig
         in case Get E cacheKey of
              (Some cached, err) \<Rightarrow> (serveCachedResponse E w cached, [EvCacheGet cacheKey])
            | (None, err) \<Rightarrow>
                emit [EvCacheGet cacheKey] (forwardAndCache E cfg w r cacheKey endpointConfig)))"


subsection \<open>Reading the trace\<close>

text \<open>The attempt numbers of the upstream calls of a trace, and the sleeps, in order.\<close>

fun attemptsOf :: "Event list \<Rightarrow> int list" where
  "attemptsOf [] = []"
| "attemptsOf (EvUpstream n url # evs) = n # attemptsOf evs"
| "attemptsOf (EvCacheGet k # evs) = attemptsOf evs"
| "attemptsOf (EvSleep d # evs) = attemptsOf evs"
| "attemptsOf (EvCacheSet k c t e # evs) = attemptsOf evs"


text \<open>The store writes of a trace: key and TTL of each call of \<^verbatim>\<open>Set\<close>, with the entry.\<close>

fun setsOf :: "Event list \<Rightarrow> (string \<times> CachedResponse \<times> Duration) list" where
  "setsOf [] = []"
| "setsOf (EvCacheSet k c t e # evs) = (k, c, t) # setsOf evs"
| "setsOf (EvCacheGet k # evs) = setsOf evs"
| "setsOf (EvUpstream n url # evs) = setsOf evs"
| "setsOf (EvSleep d # evs) = setsOf evs"

text \<open>
  The answer to attempt \<open>n\<close> is one the loop retries while attempts remain: a
  transport error, or a response whose status \<^verbatim>\<open>isRetryableStatus\<close> accepts.
\<close>

definition retriable :: "Env \<Rightarrow> Config \<Rightarrow> int \<Rightarrow> bool" where
  "retriable E cfg n =
     (case clientDo E n of
        DoError err \<Rightarrow> True
      | DoResponse resp \<Rightarrow> isRetryableStatus cfg (resp_StatusCode resp))"

definition maxAttemptsOf :: "Config \<Rightarrow> int" where
  "maxAttemptsOf cfg = (if Enabled (Retry cfg) then MaxAttempts (Retry cfg) else 1)"


text \<open>
  A store fault on read: the store answers with an error other than not-found, or with
  bytes that do not decode.
\<close>

definition storeFault :: "Env \<Rightarrow> string \<Rightarrow> bool" where
  "storeFault E key =
     (case redisGet E key of
        RedisNil \<Rightarrow> False
      | RedisErr err \<Rightarrow> True
      | RedisBytes data \<Rightarrow> (case jsonUnmarshal E data of Inl err \<Rightarrow> True | Inr cached \<Rightarrow> False))"

subsection \<open>A sample configuration and environment\<close>

text \<open>
  The retry settings of the README (three attempts, 100ms doubling up to 2s, retryable
  500, 502, 503, 504). In the sample environment the store is empty, the upstream always
  answers 503 with a body, and the library functions are stand-ins: the digest is the
  identity, the multiplication of a duration truncates the real product.
\<close>

definition sampleRetry :: RetryConfig where
  "sampleRetry =
     \<lparr>Enabled = True, MaxAttempts = 3, InitialBackoff = 100 * millisecond,
      MaxBackoff = 2 * second, BackoffMultiplier = 2, RetryableStatusCodes = [500, 502, 503, 504]\<rparr>"

definition sampleConfig :: Config where
  "sampleConfig =
     \<lparr>Cache = \<lparr>DefaultTTL = 300 * second, MaxTTL = 3600 * second, Endpoints = queryRules\<rparr>,
      Retry = sampleRetry,
      Upstream = \<lparr>BaseURL = ''http://localhost:9000'', Timeout = 30 * second, MaxIdleConns = 100,
                  MaxConnsPerHost = 10\<rparr>\<rparr>"

definition unavailable :: Response where
  "unavailable =
     \<lparr>resp_StatusCode = 503, resp_Header = [''Content-Type'' \<mapsto> [''text/plain'']],
      resp_Body = (''busy'', None)\<rparr>"

definition sampleEnv :: Env where
  "sampleEnv =
     \<lparr>canonicalKey = (\<lambda>s. s), sha256hex = (\<lambda>s. s), formatRFC3339 = (\<lambda>t. ''2026-01-01T00:00:00Z''),
      mulDuration = (\<lambda>d m. \<lfloor>real_of_int d * m\<rfloor>),
      jsonMarshal = (\<lambda>c. Inr (Body c)), jsonUnmarshal = (\<lambda>s. Inl (Err ''unexpected end of JSON input'')),
      redisGet = (\<lambda>k. RedisNil), redisSet = (\<lambda>k d t. None), newRequest = (\<lambda>m u. None),
      upstream = (\<lambda>n. DoResponse unavailable), ctxDone = (\<lambda>n. False), timeNow = 0\<rparr>"

definition getQuery :: Request where
  "getQuery =
     \<lparr>req_Method = ''GET'', req_Path = ''/query'', req_RawQuery = ''function=EOD'',
      req_Query = [''function'' \<mapsto> [''EOD'']], req_Header = Map.empty\<rparr>"

definition freshWriter :: ResponseWriter where
  "freshWriter = \<lparr>w_header = Map.empty, w_interim = [], w_status = None, w_body = []\<rparr>"

text \<open>The sample environment with the request context cancelled before the first attempt.\<close>

definition cancelledEnv :: Env where
  "cancelledEnv = sampleEnv\<lparr>ctxDone := (\<lambda>n. True)\<rparr>"

text \<open>Retry enabled with \<^verbatim>\<open>max_attempts: 0\<close>, which \<^verbatim>\<open>validate\<close> accepts.\<close>

definition zeroAttemptsConfig :: Config where
  "zeroAttemptsConfig = sampleConfig\<lparr>Retry := sampleRetry\<lparr>MaxAttempts := 0\<rparr>\<rparr>"

definition postQuery :: Request where
  "postQuery = getQuery\<lparr>req_Method := ''POST''\<rparr>"

text \<open>
  Environments for the handler: an upstream that answers 200 with a body; one that
  answers 200 and whose body fails while it is read; one that answers 503 and whose
  body fails while it is read; one that is unreachable (every
  call is a transport error); a store that fails on read; a store that holds bytes
  which do not decode; a store that holds a decodable entry.
\<close>

definition okResponse :: Response where
  "okResponse =
     \<lparr>resp_StatusCode = 200, resp_Header = [''Content-Type'' \<mapsto> [''application/json'']],
      resp_Body = (''{}'', None)\<rparr>"

definition truncatedResponse :: Response where
  "truncatedResponse = okResponse\<lparr>resp_Body := (''{'', Some (Err ''unexpected EOF''))\<rparr>"

definition brokenUnavailable :: Response where
  "brokenUnavailable = unavailable\<lparr>resp_Body := (''bu'', Some (Err ''unexpected EOF''))\<rparr>"

definition brokenBodyEnv :: Env where
  "brokenBodyEnv = sampleEnv\<lparr>upstream := (\<lambda>n. DoResponse brokenUnavailable)\<rparr>"

definition okEnv :: Env where
  "okEnv = sampleEnv\<lparr>upstream := (\<lambda>n. DoResponse okResponse)\<rparr>"

definition truncatedEnv :: Env where
  "truncatedEnv = sampleEnv\<lparr>upstream := (\<lambda>n. DoResponse truncatedResponse)\<rparr>"

definition downEnv :: Env where
  "downEnv = sampleEnv\<lparr>upstream := (\<lambda>n. DoError (Err ''connection refused''))\<rparr>"

definition storeErrorEnv :: Env where
  "storeErrorEnv = okEnv\<lparr>redisGet := (\<lambda>k. RedisErr (Err ''i/o timeout''))\<rparr>"

definition malformedEnv :: Env where
  "malformedEnv = okEnv\<lparr>redisGet := (\<lambda>k. RedisBytes ''{'')\<rparr>"

definition storedEntry :: CachedResponse where
  "storedEntry =
     \<lparr>StatusCode = 200, Headers = [''Content-Type'' \<mapsto> [''application/json'']],
      Body = ''{}'', CachedAt = 0\<rparr>"

definition hitEnv :: Env where
  "hitEnv = okEnv\<lparr>redisGet := (\<lambda>k. RedisBytes ''entry''), jsonUnmarshal := (\<lambda>s. Inr storedEntry)\<rparr>"

text \<open>
  A store that holds the bytes \<^verbatim>\<open>{}\<close> under every key: \<^verbatim>\<open>json.Unmarshal\<close> accepts them
  and leaves every field of the entry at its zero value.
\<close>

definition zeroEntry :: CachedResponse where
  "zeroEntry = \<lparr>StatusCode = 0, Headers = Map.empty, Body = [], CachedAt = 0\<rparr>"

definition emptyObjectEnv :: Env where
  "emptyObjectEnv =
     okEnv\<lparr>redisGet := (\<lambda>k. RedisBytes ''{}''), jsonUnmarshal := (\<lambda>s. Inr zeroEntry)\<rparr>"

section \<open>Properties of the resolver\<close>

lemmas queryRules_defs =
  queryRules_def queryRuleDaily_def queryRuleIntraday_def queryRuleFallback_def emptyRule_def
  hour_def minute_def

lemmas resolver_defs =
  pathMatch_def hasQueryParamMatching_def allParamsMatch_def exactParamOk_def regexParamOk_def
  fallbackResult_def

lemmas resolver_spec_defs =
  resolveCache_spec_def ruleWins_spec_def ruleApplies_spec_def discriminating_spec_def
  constraintsHold_spec_def firstValue_spec_def

lemmas patternRules_defs =
  reportRuleDaily_def apiPatternRule_def apiFormatRule_def prefixApiV1_def

lemma pathMatch_spec:
  "(pathMatch ep path \<noteq> None) =
     ((Path ep \<noteq> [] \<and> path = Path ep) \<or>
      (case compiledRegex ep of Some re \<Rightarrow> re path | None \<Rightarrow> False))"
  by (auto simp: pathMatch_def split: option.splits)

lemma pathMatch_fallback:
  "pathMatch ep path \<noteq> None \<Longrightarrow>
   (if pathMatch ep path = Some MatchTypeRegex then MatchTypeFallbackRegex
    else MatchTypeFallbackExact) =
   (if Path ep \<noteq> [] \<and> path = Path ep then MatchTypeFallbackExact else MatchTypeFallbackRegex)"
  by (auto simp: pathMatch_def split: option.splits if_splits)

lemma find_SomeD: "find P xs = Some x \<Longrightarrow> P x"
  by (induction xs) (auto split: if_splits)

lemma hasQueryParamMatching_spec: "hasQueryParamMatching ep = discriminating_spec ep"
  by (simp add: hasQueryParamMatching_def discriminating_spec_def)

lemma exactParamOk_spec:
  "exactParamOk queryParams c =
     (case firstValue_spec queryParams (fst c) of Some v \<Rightarrow> v \<in> set (snd c) | None \<Rightarrow> False)"
  by (auto simp: exactParamOk_def firstValue_spec_def list_ex_iff split: option.splits list.splits)

lemma regexParamOk_spec:
  "regexParamOk queryParams c =
     (case firstValue_spec queryParams (fst c) of
        Some v \<Rightarrow> (\<exists>re \<in> set (snd c). re v) | None \<Rightarrow> False)"
  by (auto simp: regexParamOk_def firstValue_spec_def list_ex_iff split: option.splits list.splits)

lemma allParamsMatch_spec: "allParamsMatch ep queryParams = constraintsHold_spec ep queryParams"
  by (simp add: allParamsMatch_def constraintsHold_spec_def list_all_iff exactParamOk_spec
        regexParamOk_spec case_prod_beta)

lemma walkEndpoints_find_code:
  "walkEndpoints eps path method q fb =
     (case find (\<lambda>ep. method \<in> set (Methods ep) \<and> pathMatch ep path \<noteq> None \<and>
                        hasQueryParamMatching ep \<and> allParamsMatch ep q) eps of
        Some ep \<Rightarrow> \<lparr>Config = Some ep, MatchType = MatchTypeQueryParam\<rparr>
      | None \<Rightarrow>
          (case fb of
             Some f \<Rightarrow> fallbackResult (Some f)
           | None \<Rightarrow>
               (case find (\<lambda>ep. method \<in> set (Methods ep) \<and> pathMatch ep path \<noteq> None \<and>
                                  \<not> hasQueryParamMatching ep) eps of
                  Some ep \<Rightarrow>
                    \<lparr>Config = Some ep,
                     MatchType = (if pathMatch ep path = Some MatchTypeRegex
                                  then MatchTypeFallbackRegex else MatchTypeFallbackExact)\<rparr>
                | None \<Rightarrow> \<lparr>Config = None, MatchType = MatchTypeDefault\<rparr>)))"
proof (induction eps arbitrary: fb)
  case Nil
  show ?case by (simp add: fallbackResult_def split: option.splits)
next
  case (Cons ep eps)
  show ?case
    by (cases "pathMatch ep path"; cases fb)
       (auto simp: Cons.IH fallbackResult_def split: option.splits)
qed

lemma walkEndpoints_find:
  "walkEndpoints eps path method q fb =
     (case find (\<lambda>ep. ruleWins_spec ep path method q) eps of
        Some ep \<Rightarrow> \<lparr>Config = Some ep, MatchType = MatchTypeQueryParam\<rparr>
      | None \<Rightarrow>
          (case fb of
             Some f \<Rightarrow> fallbackResult (Some f)
           | None \<Rightarrow>
               (case find (\<lambda>ep. ruleApplies_spec ep path method \<and> \<not> discriminating_spec ep) eps of
                  Some ep \<Rightarrow>
                    \<lparr>Config = Some ep,
                     MatchType = (if Path ep \<noteq> [] \<and> path = Path ep
                                  then MatchTypeFallbackExact else MatchTypeFallbackRegex)\<rparr>
                | None \<Rightarrow> \<lparr>Config = None, MatchType = MatchTypeDefault\<rparr>)))"
proof -
  have ap: "\<And>ep. ruleApplies_spec ep path method =
                  (method \<in> set (Methods ep) \<and> pathMatch ep path \<noteq> None)"
    unfolding ruleApplies_spec_def pathMatch_spec ..
  have w: "(\<lambda>ep. ruleWins_spec ep path method q) =
           (\<lambda>ep. method \<in> set (Methods ep) \<and> pathMatch ep path \<noteq> None \<and>
                  hasQueryParamMatching ep \<and> allParamsMatch ep q)"
    by (intro ext) (simp add: ruleWins_spec_def ap hasQueryParamMatching_spec allParamsMatch_spec)
  have f: "(\<lambda>ep. ruleApplies_spec ep path method \<and> \<not> discriminating_spec ep) =
           (\<lambda>ep. method \<in> set (Methods ep) \<and> pathMatch ep path \<noteq> None \<and>
                  \<not> hasQueryParamMatching ep)"
    by (intro ext) (simp add: ap hasQueryParamMatching_spec)
  have k: "\<And>ep. find (\<lambda>ep. method \<in> set (Methods ep) \<and> pathMatch ep path \<noteq> None \<and>
                             \<not> hasQueryParamMatching ep) eps = Some ep \<Longrightarrow>
             (if pathMatch ep path = Some MatchTypeRegex then MatchTypeFallbackRegex
              else MatchTypeFallbackExact) =
             (if Path ep \<noteq> [] \<and> path = Path ep then MatchTypeFallbackExact
              else MatchTypeFallbackRegex)"
    by (drule find_SomeD) (simp add: pathMatch_fallback)
  show ?thesis
    unfolding w f walkEndpoints_find_code
    by (simp add: k split: option.splits)
qed

lemma find_append_winner:
  "\<forall>x \<in> set pre. \<not> P x \<Longrightarrow> P y \<Longrightarrow> find P (pre @ y # rest) = Some y"
  by (induction pre) auto

lemma find_no_match: "\<forall>x \<in> set xs. \<not> P x \<Longrightarrow> find P xs = None"
  by (induction xs) auto

lemma winner_stops_walk:
  assumes "\<forall>ep' \<in> set pre. \<not> ruleWins_spec ep' path method queryParams"
      and "ruleWins_spec ep path method queryParams"
  shows "GetEndpointCacheConfigMatch (pre @ ep # rest) path method queryParams =
           \<lparr>Config = Some ep, MatchType = MatchTypeQueryParam\<rparr>"
proof -
  have "find (\<lambda>ep. ruleWins_spec ep path method queryParams) (pre @ ep # rest) = Some ep"
    using assms by (rule find_append_winner)
  then show ?thesis
    by (simp add: GetEndpointCacheConfigMatch_def walkEndpoints_find)
qed

lemma no_applicable_rule:
  assumes "\<forall>ep \<in> set endpoints. \<not> ruleApplies_spec ep path method"
  shows "GetEndpointCacheConfigMatch endpoints path method queryParams =
           \<lparr>Config = None, MatchType = MatchTypeDefault\<rparr>"
proof -
  have "find (\<lambda>ep. ruleWins_spec ep path method queryParams) endpoints = None"
    using assms by (intro find_no_match) (simp add: ruleWins_spec_def)
  moreover have "find (\<lambda>ep. ruleApplies_spec ep path method \<and> \<not> discriminating_spec ep) endpoints = None"
    using assms by (intro find_no_match) simp
  ultimately show ?thesis
    by (simp add: GetEndpointCacheConfigMatch_def walkEndpoints_find)
qed

text \<open>
  C1. Cache resolution is the walk the specification describes, for every rule list,
  path, method and query: rules whose method set does not contain the method, or
  whose path test fails (the exact string, else the compiled pattern), are skipped, so
  that a list in which no rule applies gives no rule; the first discriminating rule
  that applies and whose constraints all hold is the result, whatever rules follow it
  in the list; a rule that applies without discriminating does not end the walk
  (listed first, it still loses to a later rule that wins) and is the result only when
  no rule wins, the first such rule being taken; otherwise there is no rule, and the
  handler's TTL is the process default. On the three rules for \<^verbatim>\<open>/query\<close>:
  \<^verbatim>\<open>function=EOD\<close> gives 24h, \<^verbatim>\<open>function=INTRADAY\<close> 5m, \<^verbatim>\<open>function=UNKNOWN\<close> and a
  missing parameter 1h; the same rules give no rule for the path \<^verbatim>\<open>/report\<close> and for
  the method \<^verbatim>\<open>POST\<close>, and a daily rule for \<^verbatim>\<open>/report\<close> listed first is passed over for
  \<^verbatim>\<open>/query\<close>. On two rules with the pattern \<^verbatim>\<open>^/api/v1/.*\<close>, the path
  \<^verbatim>\<open>/api/v1/users\<close> resolves by the pattern and \<^verbatim>\<open>/api/v2/users\<close> to no rule.
\<close>

theorem cache_resolution_order:
  "GetEndpointCacheConfigMatch endpoints path method queryParams =
     resolveCache_spec endpoints path method queryParams
   \<and> ((\<forall>ep' \<in> set pre. \<not> ruleWins_spec ep' path method queryParams) \<and>
       ruleWins_spec ep path method queryParams \<longrightarrow>
         GetEndpointCacheConfigMatch (pre @ ep # rest) path method queryParams =
           \<lparr>Config = Some ep, MatchType = MatchTypeQueryParam\<rparr>)
   \<and> ((\<forall>ep' \<in> set endpoints. \<not> ruleApplies_spec ep' path method) \<longrightarrow>
         GetEndpointCacheConfigMatch endpoints path method queryParams =
           \<lparr>Config = None, MatchType = MatchTypeDefault\<rparr>)
   \<and> GetEndpointCacheConfigMatch [queryRuleFallback, queryRuleDaily] ''/query'' ''GET''
         [''function'' \<mapsto> [''EOD'']] =
       \<lparr>Config = Some queryRuleDaily, MatchType = MatchTypeQueryParam\<rparr>
   \<and> GetEndpointCacheConfigMatch queryRules ''/query'' ''GET'' [''function'' \<mapsto> [''EOD'']] =
       \<lparr>Config = Some queryRuleDaily, MatchType = MatchTypeQueryParam\<rparr>
   \<and> TTL queryRuleDaily = 24 * hour
   \<and> GetEndpointCacheConfigMatch queryRules ''/query'' ''GET'' [''function'' \<mapsto> [''INTRADAY'']] =
       \<lparr>Config = Some queryRuleIntraday, MatchType = MatchTypeQueryParam\<rparr>
   \<and> TTL queryRuleIntraday = 5 * minute
   \<and> GetEndpointCacheConfigMatch queryRules ''/query'' ''GET'' [''function'' \<mapsto> [''UNKNOWN'']] =
       \<lparr>Config = Some queryRuleFallback, MatchType = MatchTypeFallbackExact\<rparr>
   \<and> GetEndpointCacheConfigMatch queryRules ''/query'' ''GET'' [''other'' \<mapsto> [''value'']] =
       \<lparr>Config = Some queryRuleFallback, MatchType = MatchTypeFallbackExact\<rparr>
   \<and> GetEndpointCacheConfigMatch queryRules ''/query'' ''GET'' Map.empty =
       \<lparr>Config = Some queryRuleFallback, MatchType = MatchTypeFallbackExact\<rparr>
   \<and> TTL queryRuleFallback = 1 * hour
   \<and> GetEndpointCacheConfigMatch queryRules ''/report'' ''GET'' [''function'' \<mapsto> [''EOD'']] =
       \<lparr>Config = None, MatchType = MatchTypeDefault\<rparr>
   \<and> GetEndpointCacheConfigMatch queryRules ''/query'' ''POST'' [''function'' \<mapsto> [''EOD'']] =
       \<lparr>Config = None, MatchType = MatchTypeDefault\<rparr>
   \<and> GetEndpointCacheConfigMatch (reportRuleDaily # queryRules) ''/query'' ''GET''
         [''function'' \<mapsto> [''EOD'']] =
       \<lparr>Config = Some queryRuleDaily, MatchType = MatchTypeQueryParam\<rparr>
   \<and> GetEndpointCacheConfigMatch (reportRuleDaily # queryRules) ''/report'' ''GET''
         [''function'' \<mapsto> [''EOD'']] =
       \<lparr>Config = Some reportRuleDaily, MatchType = MatchTypeQueryParam\<rparr>
   \<and> TTL reportRuleDaily = 12 * hour
   \<and> GetEndpointCacheConfigMatch [apiPatternRule, apiFormatRule] ''/api/v1/users'' ''GET''
         Map.empty =
       \<lparr>Config = Some apiPatternRule, MatchType = MatchTypeFallbackRegex\<rparr>
   \<and> GetEndpointCacheConfigMatch [apiPatternRule, apiFormatRule] ''/api/v1/users'' ''GET''
         [''format'' \<mapsto> [''csv'']] =
       \<lparr>Config = Some apiFormatRule, MatchType = MatchTypeQueryParam\<rparr>
   \<and> GetEndpointCacheConfigMatch [apiPatternRule, apiFormatRule] ''/api/v1/users'' ''HEAD''
         [''format'' \<mapsto> [''csv'']] =
       \<lparr>Config = Some apiPatternRule, MatchType = MatchTypeFallbackRegex\<rparr>
   \<and> GetEndpointCacheConfigMatch [apiPatternRule, apiFormatRule] ''/api/v2/users'' ''GET''
         [''format'' \<mapsto> [''csv'']] =
       \<lparr>Config = None, MatchType = MatchTypeDefault\<rparr>
   \<and> GetEndpointCacheConfigMatch [] path method queryParams =
       \<lparr>Config = None, MatchType = MatchTypeDefault\<rparr>
   \<and> getTTL cfg (GetEndpointCacheConfig [] path method queryParams) = DefaultTTL (Cache cfg)
   \<and> (GetEndpointCacheConfig endpoints path method queryParams = None \<longrightarrow>
        getTTL cfg (GetEndpointCacheConfig endpoints path method queryParams) =
          DefaultTTL (Cache cfg))"
proof -
  have walk: "GetEndpointCacheConfigMatch endpoints path method queryParams =
      resolveCache_spec endpoints path method queryParams"
    by (simp add: GetEndpointCacheConfigMatch_def resolveCache_spec_def walkEndpoints_find
        split: option.splits)
  have stop: "(\<forall>ep' \<in> set pre. \<not> ruleWins_spec ep' path method queryParams) \<and>
       ruleWins_spec ep path method queryParams \<longrightarrow>
         GetEndpointCacheConfigMatch (pre @ ep # rest) path method queryParams =
           \<lparr>Config = Some ep, MatchType = MatchTypeQueryParam\<rparr>"
    using winner_stops_walk by blast
  have skip: "(\<forall>ep' \<in> set endpoints. \<not> ruleApplies_spec ep' path method) \<longrightarrow>
         GetEndpointCacheConfigMatch endpoints path method queryParams =
           \<lparr>Config = None, MatchType = MatchTypeDefault\<rparr>"
    using no_applicable_rule by blast
  have later: "GetEndpointCacheConfigMatch [queryRuleFallback, queryRuleDaily] ''/query'' ''GET''
         [''function'' \<mapsto> [''EOD'']] =
       \<lparr>Config = Some queryRuleDaily, MatchType = MatchTypeQueryParam\<rparr>"
    by (simp add: GetEndpointCacheConfigMatch_def queryRules_defs resolver_defs)
  have eod: "GetEndpointCacheConfigMatch queryRules ''/query'' ''GET'' [''function'' \<mapsto> [''EOD'']] =
       \<lparr>Config = Some queryRuleDaily, MatchType = MatchTypeQueryParam\<rparr>"
    by (simp add: GetEndpointCacheConfigMatch_def queryRules_defs resolver_defs)
  have intraday: "GetEndpointCacheConfigMatch queryRules ''/query'' ''GET'' [''function'' \<mapsto> [''INTRADAY'']] =
       \<lparr>Config = Some queryRuleIntraday, MatchType = MatchTypeQueryParam\<rparr>"
    by (simp add: GetEndpointCacheConfigMatch_def queryRules_defs resolver_defs)
  have unknown: "GetEndpointCacheConfigMatch queryRules ''/query'' ''GET'' [''function'' \<mapsto> [''UNKNOWN'']] =
       \<lparr>Config = Some queryRuleFallback, MatchType = MatchTypeFallbackExact\<rparr>"
    by (simp add: GetEndpointCacheConfigMatch_def queryRules_defs resolver_defs)
  have other: "GetEndpointCacheConfigMatch queryRules ''/query'' ''GET'' [''other'' \<mapsto> [''value'']] =
       \<lparr>Config = Some queryRuleFallback, MatchType = MatchTypeFallbackExact\<rparr>"
    by (simp add: GetEndpointCacheConfigMatch_def queryRules_defs resolver_defs)
  have missing: "GetEndpointCacheConfigMatch queryRules ''/query'' ''GET'' Map.empty =
       \<lparr>Config = Some queryRuleFallback, MatchType = MatchTypeFallbackExact\<rparr>"
    by (simp add: GetEndpointCacheConfigMatch_def queryRules_defs resolver_defs)
  have ttls: "TTL queryRuleDaily = 24 * hour" "TTL queryRuleIntraday = 5 * minute"
      "TTL queryRuleFallback = 1 * hour" "TTL reportRuleDaily = 12 * hour"
    by (simp_all add: queryRules_defs reportRuleDaily_def)
  have report: "GetEndpointCacheConfigMatch queryRules ''/report'' ''GET'' [''function'' \<mapsto> [''EOD'']] =
       \<lparr>Config = None, MatchType = MatchTypeDefault\<rparr>"
    by (simp add: GetEndpointCacheConfigMatch_def queryRules_defs resolver_defs)
  have post: "GetEndpointCacheConfigMatch queryRules ''/query'' ''POST'' [''function'' \<mapsto> [''EOD'']] =
       \<lparr>Config = None, MatchType = MatchTypeDefault\<rparr>"
    by (simp add: GetEndpointCacheConfigMatch_def queryRules_defs resolver_defs)
  have passed: "GetEndpointCacheConfigMatch (reportRuleDaily # queryRules) ''/query'' ''GET''
         [''function'' \<mapsto> [''EOD'']] =
       \<lparr>Config = Some queryRuleDaily, MatchType = MatchTypeQueryParam\<rparr>"
    by (simp add: GetEndpointCacheConfigMatch_def queryRules_defs resolver_defs patternRules_defs)
  have taken: "GetEndpointCacheConfigMatch (reportRuleDaily # queryRules) ''/report'' ''GET''
         [''function'' \<mapsto> [''EOD'']] =
       \<lparr>Config = Some reportRuleDaily, MatchType = MatchTypeQueryParam\<rparr>"
    by (simp add: GetEndpointCacheConfigMatch_def queryRules_defs resolver_defs patternRules_defs)
  have pat1: "GetEndpointCacheConfigMatch [apiPatternRule, apiFormatRule] ''/api/v1/users'' ''GET''
         Map.empty =
       \<lparr>Config = Some apiPatternRule, MatchType = MatchTypeFallbackRegex\<rparr>"
    by (simp add: GetEndpointCacheConfigMatch_def queryRules_defs resolver_defs patternRules_defs)
  have pat2: "GetEndpointCacheConfigMatch [apiPatternRule, apiFormatRule] ''/api/v1/users'' ''GET''
         [''format'' \<mapsto> [''csv'']] =
       \<lparr>Config = Some apiFormatRule, MatchType = MatchTypeQueryParam\<rparr>"
    by (simp add: GetEndpointCacheConfigMatch_def queryRules_defs resolver_defs patternRules_defs)
  have pat3: "GetEndpointCacheConfigMatch [apiPatternRule, apiFormatRule] ''/api/v1/users'' ''HEAD''
         [''format'' \<mapsto> [''csv'']] =
       \<lparr>Config = Some apiPatternRule, MatchType = MatchTypeFallbackRegex\<rparr>"
    by (simp add: GetEndpointCacheConfigMatch_def queryRules_defs resolver_defs patternRules_defs)
  have pat4: "GetEndpointCacheConfigMatch [apiPatternRule, apiFormatRule] ''/api/v2/users'' ''GET''
         [''format'' \<mapsto> [''csv'']] =
       \<lparr>Config = None, MatchType = MatchTypeDefault\<rparr>"
    by (simp add: GetEndpointCacheConfigMatch_def queryRules_defs resolver_defs patternRules_defs)
  have norules: "GetEndpointCacheConfigMatch [] path method queryParams =
       \<lparr>Config = None, MatchType = MatchTypeDefault\<rparr>"
    by (simp add: GetEndpointCacheConfigMatch_def fallbackResult_def)
  have dflt: "getTTL cfg (GetEndpointCacheConfig [] path method queryParams) = DefaultTTL (Cache cfg)"
    by (simp add: GetEndpointCacheConfig_def norules getTTL_def)
  have none: "GetEndpointCacheConfig endpoints path method queryParams = None \<longrightarrow>
        getTTL cfg (GetEndpointCacheConfig endpoints path method queryParams) =
          DefaultTTL (Cache cfg)"
    by (simp add: getTTL_def)
  show ?thesis
    by (intro conjI walk stop skip later eod intraday unknown other missing ttls report post
          passed taken pat1 pat2 pat3 pat4 norules dflt none)
qed

theorem cache_resolution_order_witness:
  "\<not> ruleWins_spec reportRuleDaily ''/query'' ''GET'' [''function'' \<mapsto> [''WEEKLY'']]
   \<and> \<not> ruleWins_spec queryRuleFallback ''/query'' ''GET'' [''function'' \<mapsto> [''WEEKLY'']]
   \<and> ruleWins_spec queryRuleDaily ''/query'' ''GET'' [''function'' \<mapsto> [''WEEKLY'']]
   \<and> GetEndpointCacheConfigMatch
         ([reportRuleDaily, queryRuleFallback] @ queryRuleDaily # [queryRuleIntraday])
         ''/query'' ''GET'' [''function'' \<mapsto> [''WEEKLY'']] =
       \<lparr>Config = Some queryRuleDaily, MatchType = MatchTypeQueryParam\<rparr>
   \<and> \<not> ruleApplies_spec queryRuleDaily ''/api/v1/users'' ''GET''
   \<and> \<not> ruleApplies_spec queryRuleIntraday ''/api/v1/users'' ''GET''
   \<and> \<not> ruleApplies_spec queryRuleFallback ''/api/v1/users'' ''GET''
   \<and> GetEndpointCacheConfigMatch queryRules ''/api/v1/users'' ''GET'' [''function'' \<mapsto> [''WEEKLY'']] =
       \<lparr>Config = None, MatchType = MatchTypeDefault\<rparr>"
  using cache_resolution_order
          [of queryRules "''/query''" "''GET''" "[''function'' \<mapsto> [''WEEKLY'']]"
              "[reportRuleDaily, queryRuleFallback]" queryRuleDaily "[queryRuleIntraday]"]
        cache_resolution_order
          [of queryRules "''/api/v1/users''" "''GET''" "[''function'' \<mapsto> [''WEEKLY'']]"
              "[]" queryRuleDaily "[]"]
  by (simp add: resolver_spec_defs queryRules_defs patternRules_defs)

lemma rate_limit_first_match:
  "GetEndpointRateLimitConfig endpoints path =
     find (\<lambda>ep. (rl_Path ep \<noteq> [] \<and> rl_Path ep = path) \<or>
                 (case rl_compiledRegex ep of None \<Rightarrow> False | Some re \<Rightarrow> re path)) endpoints"
  by (induction endpoints) auto

text \<open>
  C2. Rate-limit resolution is one pass that returns the first rule matching the path
  either way. With the pattern rule \<^verbatim>\<open>^/api/v1/.*\<close> listed before the exact rule
  \<^verbatim>\<open>/api/v1/search\<close>, the request path \<^verbatim>\<open>/api/v1/search\<close> resolves to the pattern rule
  (5 requests per second), where exact-before-pattern resolution gives the exact rule
  (10 requests per second).
\<close>

theorem rate_limit_pattern_shadows_exact:
  "GetEndpointRateLimitConfig [rlPatternRule, rlExactRule] ''/api/v1/search'' = Some rlPatternRule
   \<and> resolveRateLimit_spec [rlPatternRule, rlExactRule] ''/api/v1/search'' = Some rlExactRule
   \<and> rl_RequestsPerSecond rlPatternRule = 5 \<and> rl_RequestsPerSecond rlExactRule = 10
   \<and> rlPatternRule \<noteq> rlExactRule"
  by (simp add: resolveRateLimit_spec_def rlPatternRule_def rlExactRule_def prefixApiV1_def)

lemma missing_param_fails:
  assumes "queryParams param = None \<or> queryParams param = Some []"
  shows "\<not> exactParamOk queryParams (param, allowed)"
    and "\<not> regexParamOk queryParams (param, patterns)"
  using assms by (auto simp: exactParamOk_def regexParamOk_def)

lemma constrained_rule_fails:
  assumes absent: "queryParams param = None \<or> queryParams param = Some []"
      and refd: "param \<in> fst ` set (MatchQueryParams ep) \<or>
                 param \<in> fst ` set (compiledQueryParamRegex ep)"
  shows "\<not> allParamsMatch ep queryParams \<and> hasQueryParamMatching ep"
proof -
  from refd show ?thesis
  proof
    assume "param \<in> fst ` set (MatchQueryParams ep)"
    then obtain allowed where m: "(param, allowed) \<in> set (MatchQueryParams ep)" by auto
    with absent missing_param_fails(1)[of queryParams param]
    have "\<not> list_all (exactParamOk queryParams) (MatchQueryParams ep)"
      unfolding list_all_iff by blast
    moreover from m have "MatchQueryParams ep \<noteq> []" by auto
    ultimately show ?thesis by (simp add: allParamsMatch_def hasQueryParamMatching_def)
  next
    assume "param \<in> fst ` set (compiledQueryParamRegex ep)"
    then obtain pats where m: "(param, pats) \<in> set (compiledQueryParamRegex ep)" by auto
    with absent missing_param_fails(2)[of queryParams param]
    have "\<not> list_all (regexParamOk queryParams) (compiledQueryParamRegex ep)"
      unfolding list_all_iff by blast
    moreover from m have "compiledQueryParamRegex ep \<noteq> []" by auto
    ultimately show ?thesis by (simp add: allParamsMatch_def hasQueryParamMatching_def)
  qed
qed

lemma failing_rule_never_wins:
  assumes "\<not> allParamsMatch ep queryParams" and "hasQueryParamMatching ep"
  shows "Config (GetEndpointCacheConfigMatch endpoints path method queryParams) \<noteq> Some ep"
  using assms
  by (auto simp: GetEndpointCacheConfigMatch_def walkEndpoints_find ruleWins_spec_def
             allParamsMatch_spec hasQueryParamMatching_spec
           split: option.splits dest: find_SomeD)

text \<open>
  C8, as the claim states it, fails: a parameter supplied with an empty value satisfies
  an allow-list that lists the empty string and a pattern that matches the empty
  string (\<^verbatim>\<open>.*\<close>), and the rule wins.
\<close>

theorem empty_value_can_match:
  "exactParamOk [''function'' \<mapsto> [[]]] (''function'', [[]])
   \<and> GetEndpointCacheConfigMatch [allowEmptyRule] ''/query'' ''GET'' [''function'' \<mapsto> [[]]] =
       \<lparr>Config = Some allowEmptyRule, MatchType = MatchTypeQueryParam\<rparr>
   \<and> regexParamOk [''symbol'' \<mapsto> [[]]] (''symbol'', [matchAny])
   \<and> GetEndpointCacheConfigMatch [patternAnyRule] ''/query'' ''GET'' [''symbol'' \<mapsto> [[]]] =
       \<lparr>Config = Some patternAnyRule, MatchType = MatchTypeQueryParam\<rparr>"
  by (simp add: GetEndpointCacheConfigMatch_def allowEmptyRule_def patternAnyRule_def
        emptyRule_def matchAny_def resolver_defs)

text \<open>
  C8, amended. A parameter that a constraint of the rule refers to and that is absent
  from the request, or present with no value at all, fails the constraint, allow-list
  or pattern, and the rule is not the result of the resolution. A parameter whose
  first value is the empty string is tested like any other first value: the allow-list
  holds exactly when it lists the empty string, the pattern constraint exactly when
  one of its patterns matches the empty string.
\<close>

theorem absent_param_fails_constraint:
  "((queryParams param = None \<or> queryParams param = Some []) \<longrightarrow>
      \<not> exactParamOk queryParams (param, allowed) \<and>
      \<not> regexParamOk queryParams (param, patterns) \<and>
      ((param \<in> fst ` set (MatchQueryParams ep) \<or>
        param \<in> fst ` set (compiledQueryParamRegex ep)) \<longrightarrow>
         \<not> allParamsMatch ep queryParams \<and>
         Config (GetEndpointCacheConfigMatch endpoints path method queryParams) \<noteq> Some ep))
   \<and> (queryParams param = Some ([] # rest) \<longrightarrow>
         exactParamOk queryParams (param, allowed) = ([] \<in> set allowed) \<and>
         regexParamOk queryParams (param, patterns) = (\<exists>re \<in> set patterns. re []))"
proof (intro conjI impI)
  assume a: "queryParams param = None \<or> queryParams param = Some []"
  show "\<not> exactParamOk queryParams (param, allowed)"
    using a by (rule missing_param_fails(1)[of queryParams param])
  show "\<not> regexParamOk queryParams (param, patterns)"
    using a by (rule missing_param_fails(2)[of queryParams param])
  assume r: "param \<in> fst ` set (MatchQueryParams ep) \<or>
             param \<in> fst ` set (compiledQueryParamRegex ep)"
  have c: "\<not> allParamsMatch ep queryParams \<and> hasQueryParamMatching ep"
    using a r by (rule constrained_rule_fails[of queryParams param ep])
  from c show "\<not> allParamsMatch ep queryParams" by simp
  from c show "Config (GetEndpointCacheConfigMatch endpoints path method queryParams) \<noteq> Some ep"
    by (simp add: failing_rule_never_wins)
next
  assume e: "queryParams param = Some ([] # rest)"
  show "exactParamOk queryParams (param, allowed) = ([] \<in> set allowed)"
    using e by (auto simp: exactParamOk_def list_ex_iff)
  show "regexParamOk queryParams (param, patterns) = (\<exists>re \<in> set patterns. re [])"
    using e by (simp add: regexParamOk_def list_ex_iff)
qed

theorem absent_param_fails_constraint_witness:
  "(Map.empty :: Values) ''function'' = None
   \<and> ''function'' \<in> fst ` set (MatchQueryParams queryRuleDaily)
   \<and> \<not> exactParamOk Map.empty (''function'', [''EOD'', ''WEEKLY'', ''MONTHLY''])
   \<and> \<not> regexParamOk Map.empty (''function'', [matchAny])
   \<and> \<not> allParamsMatch queryRuleDaily Map.empty
   \<and> Config (GetEndpointCacheConfigMatch queryRules ''/query'' ''GET'' Map.empty) \<noteq> Some queryRuleDaily
   \<and> [''function'' \<mapsto> [[]]] ''function'' = Some ([] # [])
   \<and> \<not> exactParamOk [''function'' \<mapsto> [[]]] (''function'', [''EOD'', ''WEEKLY'', ''MONTHLY''])
   \<and> regexParamOk [''function'' \<mapsto> [[]]] (''function'', [matchAny])"
  using absent_param_fails_constraint
          [of "Map.empty" "''function''" "[''EOD'', ''WEEKLY'', ''MONTHLY'']" "[matchAny]"
              queryRuleDaily queryRules "''/query''" "''GET''" "[]"]
        absent_param_fails_constraint
          [of "[''function'' \<mapsto> [[]]]" "''function''" "[''EOD'', ''WEEKLY'', ''MONTHLY'']" "[matchAny]"
              queryRuleDaily queryRules "''/query''" "''GET''" "[]"]
  by (simp add: queryRuleDaily_def emptyRule_def matchAny_def)


section \<open>Properties of the retry loop\<close>

lemma retryLoop_exhausted:
  "\<not> a \<le> M \<Longrightarrow> retryLoop E cfg r M a b le = (Inl (Wrap ''all retry attempts failed'' le), [])"
  by (subst retryLoop.simps) simp

lemma retryLoop_retry_error:
  "\<lbrakk>a < M; newRequest E (req_Method r) (upstreamURL cfg r) = None; clientDo E a = DoError e\<rbrakk> \<Longrightarrow>
   retryLoop E cfg r M a b le =
     emit [EvUpstream a (upstreamURL cfg r), EvSleep b]
       (retryLoop E cfg r M (a + 1) (nextBackoff E cfg b) (Some e))"
  by (subst retryLoop.simps) simp

lemma retryLoop_last_error:
  "\<lbrakk>a = M; newRequest E (req_Method r) (upstreamURL cfg r) = None; clientDo E a = DoError e\<rbrakk> \<Longrightarrow>
   retryLoop E cfg r M a b le =
     (Inl (Wrap ''all retry attempts failed'' (Some e)), [EvUpstream a (upstreamURL cfg r)])"
  by (subst retryLoop.simps) simp

lemma retryLoop_retry_status:
  "\<lbrakk>a < M; newRequest E (req_Method r) (upstreamURL cfg r) = None; clientDo E a = DoResponse resp;
    isRetryableStatus cfg (resp_StatusCode resp)\<rbrakk> \<Longrightarrow>
   retryLoop E cfg r M a b le =
     emit [EvUpstream a (upstreamURL cfg r), EvSleep b]
       (retryLoop E cfg r M (a + 1) (nextBackoff E cfg b) le)"
  by (subst retryLoop.simps) simp

lemma retryLoop_return:
  "\<lbrakk>a \<le> M; newRequest E (req_Method r) (upstreamURL cfg r) = None; clientDo E a = DoResponse resp;
    \<not> isRetryableStatus cfg (resp_StatusCode resp) \<or> a = M\<rbrakk> \<Longrightarrow>
   retryLoop E cfg r M a b le = (Inr resp, [EvUpstream a (upstreamURL cfg r)])"
  by (subst retryLoop.simps) auto

lemma retryLoop_until_response:
  assumes nr: "newRequest E (req_Method r) (upstreamURL cfg r) = None"
      and "a \<le> k" and "k \<le> M"
      and "\<forall>n. a \<le> n \<and> n < k \<longrightarrow> retriable E cfg n"
      and "clientDo E k = DoResponse resp"
      and "\<not> isRetryableStatus cfg (resp_StatusCode resp) \<or> k = M"
  shows "fst (retryLoop E cfg r M a b le) = Inr resp \<and>
         attemptsOf (snd (retryLoop E cfg r M a b le)) = [a..k]"
  using assms(2-)
proof (induction "nat (k - a)" arbitrary: a b le)
  case 0
  then have "a = k" by simp
  with 0 nr show ?case by (simp add: retryLoop_return)
next
  case (Suc d)
  then have lt: "a < k" "a < M" by auto
  with Suc.prems have ra: "retriable E cfg a" by simp
  have ih: "\<And>b' le'. fst (retryLoop E cfg r M (a + 1) b' le') = Inr resp \<and>
         attemptsOf (snd (retryLoop E cfg r M (a + 1) b' le')) = [a + 1..k]"
    using Suc.hyps(1)[of "a + 1"] Suc.hyps(2) Suc.prems lt by auto
  have up: "[a..k] = a # [a + 1..k]" using lt by (simp add: upto_rec1)
  show ?case
  proof (cases "clientDo E a")
    case (DoError e)
    with lt nr ih up show ?thesis by (simp add: retryLoop_retry_error emit_def)
  next
    case (DoResponse rp)
    with ra have "isRetryableStatus cfg (resp_StatusCode rp)" by (simp add: retriable_def)
    with DoResponse lt nr ih up show ?thesis by (simp add: retryLoop_retry_status emit_def)
  qed
qed

lemma retryLoop_attempts_bound:
  "length (attemptsOf (snd (retryLoop E cfg r M a b le))) \<le> nat (M + 1 - a)"
proof (induction E cfg r M a b le rule: retryLoop.induct)
  case (1 E cfg r M a b le)
  show ?case
  proof (cases "a \<le> M")
    case False
    then show ?thesis by (simp add: retryLoop_exhausted)
  next
    case le: True
    show ?thesis
    proof (cases "newRequest E (req_Method r) (upstreamURL cfg r)")
      case (Some e)
      then show ?thesis using le by (subst retryLoop.simps) simp
    next
      case None
      show ?thesis
      proof (cases "clientDo E a")
        case (DoError e)
        show ?thesis
        proof (cases "a < M")
          case True
          from "1.IH"(1)[OF le None DoError True]
          have "length (attemptsOf (snd (retryLoop E cfg r M (a + 1) (nextBackoff E cfg b) (Some e))))
                  \<le> nat (M + 1 - (a + 1))" .
          with True have "Suc (length (attemptsOf (snd (retryLoop E cfg r M (a + 1) (nextBackoff E cfg b) (Some e)))))
                  \<le> nat (M + 1 - a)" by arith
          then show ?thesis using True None DoError by (simp add: retryLoop_retry_error emit_def)
        next
          case False
          with le have "a = M" by simp
          then show ?thesis using None DoError by (simp add: retryLoop_last_error)
        qed
      next
        case (DoResponse rp)
        show ?thesis
        proof (cases "isRetryableStatus cfg (resp_StatusCode rp) \<and> a < M")
          case True
          from "1.IH"(2)[OF le None DoResponse True]
          have "length (attemptsOf (snd (retryLoop E cfg r M (a + 1) (nextBackoff E cfg b) le)))
                  \<le> nat (M + 1 - (a + 1))" .
          with True have "Suc (length (attemptsOf (snd (retryLoop E cfg r M (a + 1) (nextBackoff E cfg b) le))))
                  \<le> nat (M + 1 - a)" by arith
          then show ?thesis using True None DoResponse by (simp add: retryLoop_retry_status emit_def)
        next
          case False
          then have "\<not> isRetryableStatus cfg (resp_StatusCode rp) \<or> a = M" using le by auto
          then show ?thesis using le None DoResponse by (simp add: retryLoop_return)
        qed
      qed
    qed
  qed
qed


lemmas sample_defs = sampleEnv_def sampleConfig_def sampleRetry_def unavailable_def getQuery_def
  freshWriter_def millisecond_def second_def cancelledEnv_def zeroAttemptsConfig_def postQuery_def
  okResponse_def truncatedResponse_def okEnv_def truncatedEnv_def downEnv_def storeErrorEnv_def
  malformedEnv_def storedEntry_def hitEnv_def
  brokenUnavailable_def brokenBodyEnv_def zeroEntry_def emptyObjectEnv_def

lemmas retry_defs = forwardWithRetry_def upstreamURL_def clientDo_def isRetryableStatus_def
  nextBackoff_def emit_def maxAttemptsOf_def retriable_def

lemmas writer_defs = http_Error_def Write_def WriteHeader_def Header_Set_def Header_Del_def
  copyHeaders_def

lemmas handler_defs = ServeHTTP_def forwardAndCache_def forwardRequest_def serveCachedResponse_def
  Get_def Set_def getTTL_def GetEndpointCacheConfig_def GetEndpointCacheConfigMatch_def
  GenerateCacheKey_def keyString_def keyParts_def Let_def

lemma sample_resolution:
  "GetEndpointCacheConfig (Endpoints (Cache sampleConfig)) (req_Path getQuery)
     (req_Method getQuery) (req_Query getQuery) = Some queryRuleDaily"
  by (simp add: GetEndpointCacheConfig_def GetEndpointCacheConfigMatch_def sample_defs
        queryRules_defs resolver_defs)

lemma sample_key:
  "GenerateCacheKey E getQuery (Some queryRuleDaily) = ''cache:'' @ sha256hex E ''GET:/query''"
  by (simp add: GenerateCacheKey_def keyString_def keyParts_def getQuery_def queryRules_defs)


lemma retryLoop_first_attempt:
  assumes "newRequest E (req_Method r) (upstreamURL cfg r) = None" and "a \<le> M"
  shows "\<exists>rest. attemptsOf (snd (retryLoop E cfg r M a b le)) = a # rest"
  using assms by (subst retryLoop.simps) (auto simp: emit_def split: Outcome.splits)

lemma retryLoop_retries:
  assumes nr: "newRequest E (req_Method r) (upstreamURL cfg r) = None"
      and "a \<le> k" and "k < M"
      and "\<forall>n. a \<le> n \<and> n \<le> k \<longrightarrow> retriable E cfg n"
  shows "k + 1 \<in> set (attemptsOf (snd (retryLoop E cfg r M a b le)))"
  using assms(2-)
proof (induction "nat (k - a)" arbitrary: a b le)
  case 0
  then have ak: "a = k" and lt: "a < M" and ra: "retriable E cfg a" by auto
  from retryLoop_first_attempt[OF nr, of "a + 1" M] lt
  have nx: "\<And>b' le'. a + 1 \<in> set (attemptsOf (snd (retryLoop E cfg r M (a + 1) b' le')))"
    by (metis add1_zle_eq list.set_intros(1))
  show ?case
  proof (cases "clientDo E a")
    case (DoError e)
    with lt nr nx ak show ?thesis by (simp add: retryLoop_retry_error emit_def)
  next
    case (DoResponse rp)
    with ra have "isRetryableStatus cfg (resp_StatusCode rp)" by (simp add: retriable_def)
    with DoResponse lt nr nx ak show ?thesis by (simp add: retryLoop_retry_status emit_def)
  qed
next
  case (Suc d)
  then have lt: "a < k" "a < M" and ra: "retriable E cfg a" by auto
  have ih: "\<And>b' le'. k + 1 \<in> set (attemptsOf (snd (retryLoop E cfg r M (a + 1) b' le')))"
    using Suc.hyps(1)[of "a + 1"] Suc.hyps(2) Suc.prems lt by auto
  show ?case
  proof (cases "clientDo E a")
    case (DoError e)
    with lt nr ih show ?thesis by (simp add: retryLoop_retry_error emit_def)
  next
    case (DoResponse rp)
    with ra have "isRetryableStatus cfg (resp_StatusCode rp)" by (simp add: retriable_def)
    with DoResponse lt nr ih show ?thesis by (simp add: retryLoop_retry_status emit_def)
  qed
qed


lemma Header_Add_loop:
  "fold (\<lambda>v h. Header_Add h key v) vs dst =
     (if vs = [] then dst
      else dst(key \<mapsto> (case dst key of None \<Rightarrow> [] | Some ws \<Rightarrow> ws) @ vs))"
proof (induction vs arbitrary: dst)
  case Nil
  show ?case by simp
next
  case (Cons v vs)
  show ?case by (simp add: Cons.IH, auto simp: Header_Add_def fun_eq_iff)
qed

lemma copyHeaders_one_key:
  "copyHeaders [key \<mapsto> vs] dst = fold (\<lambda>v h. Header_Add h key v) vs dst"
  by (auto simp: Header_Add_loop copyHeaders_def fun_eq_iff)

lemma isRetryableStatus_iff:
  "isRetryableStatus cfg s = (Enabled (Retry cfg) \<and> s \<in> set (RetryableStatusCodes (Retry cfg)))"
  by (auto simp: isRetryableStatus_def list_ex_iff)

lemma WriteHeader_fresh:
  "w_status w = None \<Longrightarrow>
   WriteHeader w code =
     (if code < 100 \<or> code > 999 then Panic ''invalid WriteHeader code''
      else Done (w\<lparr>w_interim := (if code \<le> 199 \<and> code \<noteq> 101 then w_interim w @ [code]
                                   else w_interim w),
                   w_status := (if code \<le> 199 \<and> code \<noteq> 101 then None else Some code)\<rparr>))"
  by (simp add: WriteHeader_def)

lemma http_Error_fresh:
  assumes "w_status w = None" and "200 \<le> code" and "code \<le> 999"
  shows "http_Error w msg code =
           Done \<lparr>w_header = (w_header w)(''Content-Length'' := None,
                                ''Content-Type'' \<mapsto> [''text/plain; charset=utf-8''],
                                ''X-Content-Type-Options'' \<mapsto> [''nosniff'']),
                 w_interim = w_interim w, w_status = Some code,
                 w_body = w_body w @ msg @ [CHR 0x0A]\<rparr>"
  using assms
  by (simp add: http_Error_def WriteHeader_def Write_def Header_Set_def Header_Del_def Let_def)

lemma forwardRequest_response:
  assumes f: "fst (forwardWithRetry E cfg r) = Inr resp" and fresh: "w_status w = None"
  shows "fst (forwardRequest E cfg w r) =
           (if resp_StatusCode resp < 100 \<or> resp_StatusCode resp > 999
            then Panic ''invalid WriteHeader code''
            else Done
              \<lparr>w_header =
                 (\<lambda>key. case resp_Header resp key of
                           None \<Rightarrow> w_header w key
                         | Some vs \<Rightarrow>
                             if vs = [] then w_header w key
                             else Some ((case w_header w key of None \<Rightarrow> [] | Some ws \<Rightarrow> ws) @ vs)),
               w_interim =
                 (if resp_StatusCode resp \<le> 199 \<and> resp_StatusCode resp \<noteq> 101
                  then w_interim w @ [resp_StatusCode resp] else w_interim w),
               w_status =
                 Some (if resp_StatusCode resp \<le> 199 \<and> resp_StatusCode resp \<noteq> 101
                       then 200 else resp_StatusCode resp),
               w_body = w_body w @ fst (resp_Body resp)\<rparr>)"
proof -
  obtain evs where fe: "forwardWithRetry E cfg r = (Inr resp, evs)"
    using f by (cases "forwardWithRetry E cfg r") auto
  show ?thesis
    using fresh
    by (simp add: forwardRequest_def fe Let_def WriteHeader_fresh Write_def copyHeaders_def)
qed

lemma forwardAndCache_response:
  assumes f: "fst (forwardWithRetry E cfg r) = Inr resp" and fresh: "w_status w = None"
  shows "fst (forwardAndCache E cfg w r cacheKey endpointConfig) =
           (case resp_Body resp of
              (partial, Some err) \<Rightarrow> http_Error w ''failed to read upstream response'' 500
            | (body, None) \<Rightarrow>
                if resp_StatusCode resp < 100 \<or> resp_StatusCode resp > 999
                then Panic ''invalid WriteHeader code''
                else Done
                  \<lparr>w_header =
                     (\<lambda>key. if key = ''X-Cache'' then Some [''MISS'']
                            else case resp_Header resp key of
                                   None \<Rightarrow> w_header w key
                                 | Some vs \<Rightarrow>
                                     if vs = [] then w_header w key
                                     else Some ((case w_header w key of None \<Rightarrow> [] | Some ws \<Rightarrow> ws) @ vs)),
                   w_interim =
                     (if resp_StatusCode resp \<le> 199 \<and> resp_StatusCode resp \<noteq> 101
                      then w_interim w @ [resp_StatusCode resp] else w_interim w),
                   w_status =
                     Some (if resp_StatusCode resp \<le> 199 \<and> resp_StatusCode resp \<noteq> 101
                           then 200 else resp_StatusCode resp),
                   w_body = w_body w @ body\<rparr>)"
proof -
  obtain evs where fe: "forwardWithRetry E cfg r = (Inr resp, evs)"
    using f by (cases "forwardWithRetry E cfg r") auto
  obtain body err where b: "resp_Body resp = (body, err)" by (cases "resp_Body resp")
  show ?thesis
  proof (cases err)
    case None
    with b fresh show ?thesis
      by (simp add: forwardAndCache_def fe Let_def WriteHeader_fresh Write_def copyHeaders_def
            Header_Set_def fun_eq_iff)
  next
    case (Some e)
    with b show ?thesis by (simp add: forwardAndCache_def fe)
  qed
qed


text \<open>
  C4, as the claim states it, fails for what reaches the client. With three attempts
  allowed and an upstream that answers 503 every time, the engine returns the third
  response; but when its body fails while it is read, the client of a GET request
  receives the 500 of \<^verbatim>\<open>http.Error\<close> and its message, not the 503; and when the body is
  read, the 503 reaches the client with a header the upstream response did not carry,
  \<^verbatim>\<open>X-Cache: MISS\<close>.
\<close>

theorem exhausted_response_not_unmodified:
  "isRetryableStatus sampleConfig 503
   \<and> fst (forwardWithRetry brokenBodyEnv sampleConfig getQuery) = Inr brokenUnavailable
   \<and> resp_StatusCode brokenUnavailable = 503
   \<and> attemptsOf (snd (ServeHTTP brokenBodyEnv sampleConfig freshWriter getQuery)) = [1, 2, 3]
   \<and> map_completion (\<lambda>w. (w_status w, w_body w))
       (fst (ServeHTTP brokenBodyEnv sampleConfig freshWriter getQuery)) =
       Done (Some 500, ''failed to read upstream response'' @ [CHR 0x0A])
   \<and> fst (forwardWithRetry sampleEnv sampleConfig getQuery) = Inr unavailable
   \<and> resp_Header unavailable ''X-Cache'' = None
   \<and> map_completion (\<lambda>w. (w_status w, w_header w ''X-Cache'', w_body w))
       (fst (ServeHTTP sampleEnv sampleConfig freshWriter getQuery)) =
       Done (Some 503, Some [''MISS''], ''busy'')"
  by (simp add: handler_defs retry_defs sample_defs retryLoop.simps writer_defs
        queryRules_defs resolver_defs)

text \<open>
  C4, amended. A status is retryable exactly when retry is enabled and the status is
  in the configured list. With the request built, let attempts 1 to \<open>k - 1\<close> be
  answered by transport errors or retryable statuses and attempt \<open>k\<close>, within the
  attempts allowed, by a response. If its status is retryable and attempts remain,
  attempt \<open>k + 1\<close> is made. If its status is retryable and \<open>k\<close> is the last attempt
  allowed, the loop has made exactly the allowed attempts and returns that response
  itself, not an error (so no 502 is built). If its status is not retryable, the loop
  returns it after exactly \<open>k\<close> attempts: it is never retried. The loop never makes
  more attempts than allowed. What a handler makes of a response the loop returns, on
  a writer whose status is not yet written: the values of each header of the response
  are appended to those the writer has under that name, the status is written and the
  bytes of the body are written after it. The handler of other methods than GET does
  so whatever the reading of the body delivers; the caching handler answers the 500
  of \<^verbatim>\<open>http.Error\<close> instead when reading the body fails, and else sets
  \<^verbatim>\<open>X-Cache: MISS\<close> over the copied headers. Writing a status code outside 100..999
  panics; an informational code (1xx other than 101) is sent as an interim status
  and the response that follows has status 200.
\<close>

theorem retryable_status_exhaustion:
  assumes nr: "newRequest E (req_Method r) (upstreamURL cfg r) = None"
      and k1: "1 \<le> k" and kM: "k \<le> maxAttemptsOf cfg"
      and before: "\<forall>n. 1 \<le> n \<and> n < k \<longrightarrow> retriable E cfg n"
      and resp: "clientDo E k = DoResponse resp"
  shows "isRetryableStatus cfg (resp_StatusCode resp) =
           (Enabled (Retry cfg) \<and> resp_StatusCode resp \<in> set (RetryableStatusCodes (Retry cfg)))
       \<and> (isRetryableStatus cfg (resp_StatusCode resp) \<and> k < maxAttemptsOf cfg \<longrightarrow>
            k + 1 \<in> set (attemptsOf (snd (forwardWithRetry E cfg r))))
       \<and> (isRetryableStatus cfg (resp_StatusCode resp) \<and> k = maxAttemptsOf cfg \<longrightarrow>
            fst (forwardWithRetry E cfg r) = Inr resp \<and>
            attemptsOf (snd (forwardWithRetry E cfg r)) = [1..maxAttemptsOf cfg])
       \<and> (\<not> isRetryableStatus cfg (resp_StatusCode resp) \<longrightarrow>
            fst (forwardWithRetry E cfg r) = Inr resp \<and>
            attemptsOf (snd (forwardWithRetry E cfg r)) = [1..k])
       \<and> length (attemptsOf (snd (forwardWithRetry E cfg r))) \<le> nat (maxAttemptsOf cfg)
       \<and> (fst (forwardWithRetry E cfg r) = Inr resp \<and> w_status w = None \<longrightarrow>
            fst (forwardRequest E cfg w r) =
              (if resp_StatusCode resp < 100 \<or> resp_StatusCode resp > 999
               then Panic ''invalid WriteHeader code''
               else Done
                 \<lparr>w_header =
                    (\<lambda>key. case resp_Header resp key of
                              None \<Rightarrow> w_header w key
                            | Some vs \<Rightarrow>
                                if vs = [] then w_header w key
                                else Some ((case w_header w key of None \<Rightarrow> [] | Some ws \<Rightarrow> ws) @ vs)),
                  w_interim =
                    (if resp_StatusCode resp \<le> 199 \<and> resp_StatusCode resp \<noteq> 101
                     then w_interim w @ [resp_StatusCode resp] else w_interim w),
                  w_status =
                    Some (if resp_StatusCode resp \<le> 199 \<and> resp_StatusCode resp \<noteq> 101
                          then 200 else resp_StatusCode resp),
                  w_body = w_body w @ fst (resp_Body resp)\<rparr>) \<and>
            fst (forwardAndCache E cfg w r cacheKey endpointConfig) =
              (case resp_Body resp of
                 (partial, Some err) \<Rightarrow> http_Error w ''failed to read upstream response'' 500
               | (body, None) \<Rightarrow>
                   if resp_StatusCode resp < 100 \<or> resp_StatusCode resp > 999
                   then Panic ''invalid WriteHeader code''
                   else Done
                     \<lparr>w_header =
                        (\<lambda>key. if key = ''X-Cache'' then Some [''MISS'']
                               else case resp_Header resp key of
                                      None \<Rightarrow> w_header w key
                                    | Some vs \<Rightarrow>
                                        if vs = [] then w_header w key
                                        else Some ((case w_header w key of None \<Rightarrow> [] | Some ws \<Rightarrow> ws) @ vs)),
                      w_interim =
                        (if resp_StatusCode resp \<le> 199 \<and> resp_StatusCode resp \<noteq> 101
                         then w_interim w @ [resp_StatusCode resp] else w_interim w),
                      w_status =
                        Some (if resp_StatusCode resp \<le> 199 \<and> resp_StatusCode resp \<noteq> 101
                              then 200 else resp_StatusCode resp),
                      w_body = w_body w @ body\<rparr>) \<and>
            http_Error w ''failed to read upstream response'' 500 =
              Done \<lparr>w_header = (w_header w)(''Content-Length'' := None,
                                   ''Content-Type'' \<mapsto> [''text/plain; charset=utf-8''],
                                   ''X-Content-Type-Options'' \<mapsto> [''nosniff'']),
                    w_interim = w_interim w, w_status = Some 500,
                    w_body = w_body w @ ''failed to read upstream response'' @ [CHR 0x0A]\<rparr>)"
proof (intro conjI impI)
  show "isRetryableStatus cfg (resp_StatusCode resp) =
           (Enabled (Retry cfg) \<and> resp_StatusCode resp \<in> set (RetryableStatusCodes (Retry cfg)))"
    by (rule isRetryableStatus_iff)
next
  assume a: "isRetryableStatus cfg (resp_StatusCode resp) \<and> k < maxAttemptsOf cfg"
  have "\<forall>n. 1 \<le> n \<and> n \<le> k \<longrightarrow> retriable E cfg n"
  proof (intro allI impI)
    fix n assume n: "1 \<le> n \<and> n \<le> k"
    show "retriable E cfg n"
    proof (cases "n = k")
      case True
      with a resp show ?thesis by (simp add: retriable_def)
    next
      case False
      with n before show ?thesis by simp
    qed
  qed
  with nr k1 a show "k + 1 \<in> set (attemptsOf (snd (forwardWithRetry E cfg r)))"
    unfolding forwardWithRetry_def maxAttemptsOf_def[symmetric]
    by (intro retryLoop_retries) auto
next
  assume a: "isRetryableStatus cfg (resp_StatusCode resp) \<and> k = maxAttemptsOf cfg"
  from retryLoop_until_response[OF nr k1 kM before resp, of "InitialBackoff (Retry cfg)" None] a
  show "fst (forwardWithRetry E cfg r) = Inr resp"
    and "attemptsOf (snd (forwardWithRetry E cfg r)) = [1..maxAttemptsOf cfg]"
    by (simp_all add: forwardWithRetry_def maxAttemptsOf_def)
next
  assume a: "\<not> isRetryableStatus cfg (resp_StatusCode resp)"
  from retryLoop_until_response[OF nr k1 kM before resp, of "InitialBackoff (Retry cfg)" None] a
  show "fst (forwardWithRetry E cfg r) = Inr resp"
    and "attemptsOf (snd (forwardWithRetry E cfg r)) = [1..k]"
    by (simp_all add: forwardWithRetry_def maxAttemptsOf_def)
next
  from retryLoop_attempts_bound[of E cfg r "maxAttemptsOf cfg" 1 "InitialBackoff (Retry cfg)" None]
  show "length (attemptsOf (snd (forwardWithRetry E cfg r))) \<le> nat (maxAttemptsOf cfg)"
    by (simp add: forwardWithRetry_def maxAttemptsOf_def)
next
  assume a: "fst (forwardWithRetry E cfg r) = Inr resp \<and> w_status w = None"
  then have f: "fst (forwardWithRetry E cfg r) = Inr resp" and fresh: "w_status w = None"
    by simp_all
  from f fresh show "fst (forwardRequest E cfg w r) =
              (if resp_StatusCode resp < 100 \<or> resp_StatusCode resp > 999
               then Panic ''invalid WriteHeader code''
               else Done
                 \<lparr>w_header =
                    (\<lambda>key. case resp_Header resp key of
                              None \<Rightarrow> w_header w key
                            | Some vs \<Rightarrow>
                                if vs = [] then w_header w key
                                else Some ((case w_header w key of None \<Rightarrow> [] | Some ws \<Rightarrow> ws) @ vs)),
                  w_interim =
                    (if resp_StatusCode resp \<le> 199 \<and> resp_StatusCode resp \<noteq> 101
                     then w_interim w @ [resp_StatusCode resp] else w_interim w),
                  w_status =
                    Some (if resp_StatusCode resp \<le> 199 \<and> resp_StatusCode resp \<noteq> 101
                          then 200 else resp_StatusCode resp),
                  w_body = w_body w @ fst (resp_Body resp)\<rparr>)"
    by (rule forwardRequest_response)
  from f fresh show "fst (forwardAndCache E cfg w r cacheKey endpointConfig) =
              (case resp_Body resp of
                 (partial, Some err) \<Rightarrow> http_Error w ''failed to read upstream response'' 500
               | (body, None) \<Rightarrow>
                   if resp_StatusCode resp < 100 \<or> resp_StatusCode resp > 999
                   then Panic ''invalid WriteHeader code''
                   else Done
                     \<lparr>w_header =
                        (\<lambda>key. if key = ''X-Cache'' then Some [''MISS'']
                               else case resp_Header resp key of
                                      None \<Rightarrow> w_header w key
                                    | Some vs \<Rightarrow>
                                        if vs = [] then w_header w key
                                        else Some ((case w_header w key of None \<Rightarrow> [] | Some ws \<Rightarrow> ws) @ vs)),
                      w_interim =
                        (if resp_StatusCode resp \<le> 199 \<and> resp_StatusCode resp \<noteq> 101
                         then w_interim w @ [resp_StatusCode resp] else w_interim w),
                      w_status =
                        Some (if resp_StatusCode resp \<le> 199 \<and> resp_StatusCode resp \<noteq> 101
                              then 200 else resp_StatusCode resp),
                      w_body = w_body w @ body\<rparr>)"
    by (rule forwardAndCache_response)
  from fresh show "http_Error w ''failed to read upstream response'' 500 =
              Done \<lparr>w_header = (w_header w)(''Content-Length'' := None,
                                   ''Content-Type'' \<mapsto> [''text/plain; charset=utf-8''],
                                   ''X-Content-Type-Options'' \<mapsto> [''nosniff'']),
                    w_interim = w_interim w, w_status = Some 500,
                    w_body = w_body w @ ''failed to read upstream response'' @ [CHR 0x0A]\<rparr>"
    by (simp add: http_Error_fresh)
qed

theorem retryable_status_exhaustion_witness:
  "newRequest sampleEnv (req_Method getQuery) (upstreamURL sampleConfig getQuery) = None
   \<and> maxAttemptsOf sampleConfig = 3
   \<and> retriable sampleEnv sampleConfig 1 \<and> retriable sampleEnv sampleConfig 2
   \<and> clientDo sampleEnv 3 = DoResponse unavailable
   \<and> isRetryableStatus sampleConfig (resp_StatusCode unavailable)
   \<and> fst (forwardWithRetry sampleEnv sampleConfig getQuery) = Inr unavailable
   \<and> attemptsOf (snd (forwardWithRetry sampleEnv sampleConfig getQuery)) = [1, 2, 3]
   \<and> fst (forwardRequest sampleEnv sampleConfig freshWriter postQuery) =
       Done \<lparr>w_header = [''Content-Type'' \<mapsto> [''text/plain'']], w_interim = [],
             w_status = Some 503, w_body = ''busy''\<rparr>
   \<and> fst (forwardAndCache sampleEnv sampleConfig freshWriter getQuery ''k'' None) =
       Done \<lparr>w_header = [''Content-Type'' \<mapsto> [''text/plain''], ''X-Cache'' \<mapsto> [''MISS'']],
             w_interim = [], w_status = Some 503, w_body = ''busy''\<rparr>"
  using retryable_status_exhaustion
          [of sampleEnv getQuery sampleConfig 3 unavailable freshWriter "''k''" None]
        retryable_status_exhaustion
          [of sampleEnv postQuery sampleConfig 3 unavailable freshWriter "''k''" None]
  by (simp add: sample_defs retry_defs upto_rec1 fun_eq_iff)






text \<open>
  C10, as the claim states it, fails: with retry enabled and \<^verbatim>\<open>max_attempts: 0\<close>, a GET
  request whose key is in the store is served from the cache; the client receives
  200 with \<^verbatim>\<open>X-Cache: HIT\<close>, not 502.
\<close>

theorem zero_attempts_cached_hit:
  "Enabled (Retry zeroAttemptsConfig) \<and> MaxAttempts (Retry zeroAttemptsConfig) < 1
   \<and> map_completion (\<lambda>w. (w_status w, w_header w ''X-Cache'', w_body w))
       (fst (ServeHTTP hitEnv zeroAttemptsConfig freshWriter getQuery)) =
       Done (Some 200, Some [''HIT''], ''{}'')
   \<and> snd (ServeHTTP hitEnv zeroAttemptsConfig freshWriter getQuery) =
       [EvCacheGet ''cache:GET:/query'']"
  by (simp add: handler_defs retry_defs sample_defs writer_defs queryRules_defs resolver_defs)

text \<open>
  C10, amended. With retry enabled and \<^verbatim>\<open>max_attempts\<close> below 1 the loop body never
  runs: \<^verbatim>\<open>forwardWithRetry\<close> returns the error around a nil last error with no upstream
  call in its trace, both forwarding handlers answer with \<^verbatim>\<open>http.Error\<close> 502, and so
  does \<^verbatim>\<open>ServeHTTP\<close> for every request it does not serve from the cache; on a writer
  whose status is not yet written the client receives 502 and the fixed message. A
  GET request whose key the store holds is served from the cache instead. In no case
  is the upstream called.
\<close>

theorem zero_attempts_bad_gateway:
  assumes en: "Enabled (Retry cfg)" and m0: "MaxAttempts (Retry cfg) < 1"
  shows "forwardWithRetry E cfg r = (Inl (Wrap ''all retry attempts failed'' None), [])
       \<and> forwardAndCache E cfg w r cacheKey endpointConfig =
           (http_Error w ''upstream service unavailable'' 502, [])
       \<and> forwardRequest E cfg w r = (http_Error w ''upstream service unavailable'' 502, [])
       \<and> attemptsOf (snd (ServeHTTP E cfg w r)) = []
       \<and> (req_Method r \<noteq> ''GET'' \<or>
           fst (Get E (GenerateCacheKey E r
                  (GetEndpointCacheConfig (Endpoints (Cache cfg)) (req_Path r) (req_Method r)
                     (req_Query r)))) = None \<longrightarrow>
            fst (ServeHTTP E cfg w r) = http_Error w ''upstream service unavailable'' 502)
       \<and> (\<forall>cached. req_Method r = ''GET'' \<and>
             fst (Get E (GenerateCacheKey E r
                    (GetEndpointCacheConfig (Endpoints (Cache cfg)) (req_Path r) (req_Method r)
                       (req_Query r)))) = Some cached \<longrightarrow>
            fst (ServeHTTP E cfg w r) = serveCachedResponse E w cached)
       \<and> (w_status w = None \<longrightarrow>
            http_Error w ''upstream service unavailable'' 502 =
              Done \<lparr>w_header = (w_header w)(''Content-Length'' := None,
                                   ''Content-Type'' \<mapsto> [''text/plain; charset=utf-8''],
                                   ''X-Content-Type-Options'' \<mapsto> [''nosniff'']),
                    w_interim = w_interim w, w_status = Some 502,
                    w_body = w_body w @ ''upstream service unavailable'' @ [CHR 0x0A]\<rparr>)"
proof -
  have f: "forwardWithRetry E cfg r = (Inl (Wrap ''all retry attempts failed'' None), [])"
    using en m0 by (simp add: forwardWithRetry_def retryLoop_exhausted)
  have fc: "\<And>k ec. forwardAndCache E cfg w r k ec = (http_Error w ''upstream service unavailable'' 502, [])"
    by (simp add: forwardAndCache_def f)
  have fr: "forwardRequest E cfg w r = (http_Error w ''upstream service unavailable'' 502, [])"
    by (simp add: forwardRequest_def f)
  have at: "attemptsOf (snd (ServeHTTP E cfg w r)) = []"
    by (auto simp: ServeHTTP_def fc fr emit_def Let_def split: prod.splits option.splits)
  have sv: "req_Method r \<noteq> ''GET'' \<or>
           fst (Get E (GenerateCacheKey E r
                  (GetEndpointCacheConfig (Endpoints (Cache cfg)) (req_Path r) (req_Method r)
                     (req_Query r)))) = None \<longrightarrow>
            fst (ServeHTTP E cfg w r) = http_Error w ''upstream service unavailable'' 502"
    by (auto simp: ServeHTTP_def fc fr emit_def Let_def split: prod.splits option.splits)
  have hit: "\<forall>cached. req_Method r = ''GET'' \<and>
             fst (Get E (GenerateCacheKey E r
                    (GetEndpointCacheConfig (Endpoints (Cache cfg)) (req_Path r) (req_Method r)
                       (req_Query r)))) = Some cached \<longrightarrow>
            fst (ServeHTTP E cfg w r) = serveCachedResponse E w cached"
    by (auto simp: ServeHTTP_def Let_def split: prod.splits option.splits)
  have st: "w_status w = None \<longrightarrow>
            http_Error w ''upstream service unavailable'' 502 =
              Done \<lparr>w_header = (w_header w)(''Content-Length'' := None,
                                   ''Content-Type'' \<mapsto> [''text/plain; charset=utf-8''],
                                   ''X-Content-Type-Options'' \<mapsto> [''nosniff'']),
                    w_interim = w_interim w, w_status = Some 502,
                    w_body = w_body w @ ''upstream service unavailable'' @ [CHR 0x0A]\<rparr>"
    by (simp add: http_Error_fresh)
  from f fc fr at sv hit st show ?thesis by blast
qed

theorem zero_attempts_bad_gateway_witness:
  "Enabled (Retry zeroAttemptsConfig) \<and> MaxAttempts (Retry zeroAttemptsConfig) < 1
   \<and> forwardWithRetry sampleEnv zeroAttemptsConfig getQuery =
       (Inl (Wrap ''all retry attempts failed'' None), [])
   \<and> map_completion (\<lambda>w. (w_status w, w_body w))
       (fst (ServeHTTP sampleEnv zeroAttemptsConfig freshWriter getQuery)) =
       Done (Some 502, ''upstream service unavailable'' @ [CHR 0x0A])
   \<and> map_completion (\<lambda>w. (w_status w, w_body w))
       (fst (ServeHTTP sampleEnv zeroAttemptsConfig freshWriter postQuery)) =
       Done (Some 502, ''upstream service unavailable'' @ [CHR 0x0A])
   \<and> attemptsOf (snd (ServeHTTP sampleEnv zeroAttemptsConfig freshWriter getQuery)) = []
   \<and> fst (ServeHTTP hitEnv zeroAttemptsConfig freshWriter getQuery) =
       serveCachedResponse hitEnv freshWriter storedEntry"
  using zero_attempts_bad_gateway [of zeroAttemptsConfig sampleEnv getQuery freshWriter]
        zero_attempts_bad_gateway [of zeroAttemptsConfig sampleEnv postQuery freshWriter]
        zero_attempts_bad_gateway [of zeroAttemptsConfig hitEnv getQuery freshWriter]
  by (simp add: sample_defs Get_def)



section \<open>Properties of the handlers\<close>


lemma setsOf_append [simp]: "setsOf (xs @ ys) = setsOf xs @ setsOf ys"
  by (induction xs rule: setsOf.induct) auto

lemma attemptsOf_append [simp]: "attemptsOf (xs @ ys) = attemptsOf xs @ attemptsOf ys"
  by (induction xs rule: attemptsOf.induct) auto

lemma setsOf_retryLoop: "setsOf (snd (retryLoop E cfg r M a b le)) = []"
proof (induction E cfg r M a b le rule: retryLoop.induct)
  case (1 E cfg r M a b le)
  show ?case
    by (subst retryLoop.simps)
       (auto simp: emit_def "1.IH" split: option.splits Outcome.splits)
qed

lemma setsOf_forwardWithRetry [simp]: "setsOf (snd (forwardWithRetry E cfg r)) = []"
  by (simp add: forwardWithRetry_def setsOf_retryLoop)

lemma forwardAndCache_sets:
  "setsOf (snd (forwardAndCache E cfg w r cacheKey endpointConfig)) =
     (case fst (forwardWithRetry E cfg r) of
        Inl err \<Rightarrow> []
      | Inr resp \<Rightarrow>
          (case resp_Body resp of
             (partial, Some err) \<Rightarrow> []
           | (body, None) \<Rightarrow>
               if 200 \<le> resp_StatusCode resp \<and> resp_StatusCode resp < 300
               then [(cacheKey,
                      \<lparr>StatusCode = resp_StatusCode resp, Headers = resp_Header resp,
                       Body = body, CachedAt = timeNow E\<rparr>,
                      getTTL cfg endpointConfig)]
               else []))"
proof -
  obtain res evs where f: "forwardWithRetry E cfg r = (res, evs)" by (cases "forwardWithRetry E cfg r")
  have s: "setsOf evs = []" using setsOf_forwardWithRetry[of E cfg r] f by simp
  show ?thesis
    by (cases res; cases "resp_Body (projr res)"; cases "snd (resp_Body (projr res))")
       (auto simp: forwardAndCache_def f s Let_def split: sum.splits prod.splits option.splits)
qed

text \<open>
  C5, as the claim states it, fails: a GET request reaches the upstream, the answer
  has status 200, reading its body fails; nothing is written to the store and the
  client receives 500.
\<close>

theorem truncated_body_not_stored:
  "fst (forwardWithRetry truncatedEnv sampleConfig getQuery) = Inr truncatedResponse
   \<and> resp_StatusCode truncatedResponse = 200
   \<and> setsOf (snd (ServeHTTP truncatedEnv sampleConfig freshWriter getQuery)) = []
   \<and> map_completion w_status (fst (ServeHTTP truncatedEnv sampleConfig freshWriter getQuery)) =
       Done (Some 500)"
  by (simp add: ServeHTTP_def forwardAndCache_def Get_def retry_defs sample_defs retryLoop.simps writer_defs)


lemma getTTL_cases:
  "getTTL cfg endpointConfig =
     (case endpointConfig of
        None \<Rightarrow> DefaultTTL (Cache cfg)
      | Some ec \<Rightarrow> if 0 < TTL ec then TTL ec else DefaultTTL (Cache cfg))"
  by (simp add: getTTL_def split: option.splits)

text \<open>
  C5, amended. The handler calls the store's \<^verbatim>\<open>Set\<close> exactly when the upstream call
  returned a response, its body was read to the end, and its status is in [200,300):
  one call, under the key it was given, with the entry built from the response and
  the TTL of the matched rule when that is positive, the process default otherwise.
  In every other case (another status, no response, a body that fails while read)
  there is no call. For \<^verbatim>\<open>ServeHTTP\<close> the key is the derived key; a request that is
  not a GET, or is served from the cache, writes nothing.
\<close>

theorem store_write_iff_success_status:
  "setsOf (snd (forwardAndCache E cfg w r cacheKey endpointConfig)) =
     (case fst (forwardWithRetry E cfg r) of
        Inl err \<Rightarrow> []
      | Inr resp \<Rightarrow>
          (case resp_Body resp of
             (partial, Some err) \<Rightarrow> []
           | (body, None) \<Rightarrow>
               if 200 \<le> resp_StatusCode resp \<and> resp_StatusCode resp < 300
               then [(cacheKey,
                      \<lparr>StatusCode = resp_StatusCode resp, Headers = resp_Header resp,
                       Body = body, CachedAt = timeNow E\<rparr>,
                      getTTL cfg endpointConfig)]
               else []))
   \<and> getTTL cfg endpointConfig =
       (case endpointConfig of
          None \<Rightarrow> DefaultTTL (Cache cfg)
        | Some ec \<Rightarrow> if 0 < TTL ec then TTL ec else DefaultTTL (Cache cfg))
   \<and> setsOf (snd (ServeHTTP E cfg w r)) =
       (if req_Method r \<noteq> ''GET'' then []
        else
          (let endpointConfig = GetEndpointCacheConfig (Endpoints (Cache cfg)) (req_Path r)
                                  (req_Method r) (req_Query r);
               cacheKey = GenerateCacheKey E r endpointConfig
           in case fst (Get E cacheKey) of
                Some cached \<Rightarrow> []
              | None \<Rightarrow> setsOf (snd (forwardAndCache E cfg w r cacheKey endpointConfig))))"
proof -
  have nonget: "setsOf (snd (forwardRequest E cfg w r)) = []"
  proof -
    obtain res evs where f: "forwardWithRetry E cfg r = (res, evs)" by (cases "forwardWithRetry E cfg r")
    have s: "setsOf evs = []" using setsOf_forwardWithRetry[of E cfg r] f by simp
    show ?thesis by (cases res) (auto simp: forwardRequest_def f s Let_def)
  qed
  have serve: "setsOf (snd (ServeHTTP E cfg w r)) =
       (if req_Method r \<noteq> ''GET'' then []
        else
          (let endpointConfig = GetEndpointCacheConfig (Endpoints (Cache cfg)) (req_Path r)
                                  (req_Method r) (req_Query r);
               cacheKey = GenerateCacheKey E r endpointConfig
           in case fst (Get E cacheKey) of
                Some cached \<Rightarrow> []
              | None \<Rightarrow> setsOf (snd (forwardAndCache E cfg w r cacheKey endpointConfig))))"
    by (auto simp: ServeHTTP_def nonget Let_def emit_def split: prod.splits option.splits)
  from forwardAndCache_sets getTTL_cases serve show ?thesis by blast
qed


theorem store_write_iff_success_status_witness:
  "map (\<lambda>(k, c, t). (k, StatusCode c, Body c, t))
      (setsOf (snd (ServeHTTP okEnv sampleConfig freshWriter getQuery))) =
     [(''cache:GET:/query'', 200, ''{}'', 24 * hour)]
   \<and> setsOf (snd (ServeHTTP sampleEnv sampleConfig freshWriter getQuery)) = []"
  using store_write_iff_success_status [of okEnv sampleConfig freshWriter getQuery "[]" None]
        store_write_iff_success_status [of sampleEnv sampleConfig freshWriter getQuery "[]" None]
  by (simp add: ServeHTTP_def forwardAndCache_def Get_def retry_defs sample_defs retryLoop.simps
        writer_defs GetEndpointCacheConfig_def GetEndpointCacheConfigMatch_def queryRules_defs
        resolver_defs GenerateCacheKey_def keyString_def keyParts_def getTTL_def Set_def Let_def)

lemma retryLoop_newRequest_error:
  "\<lbrakk>a \<le> M; newRequest E (req_Method r) (upstreamURL cfg r) = Some e\<rbrakk> \<Longrightarrow>
   retryLoop E cfg r M a b le = (Inl (Wrap ''failed to create upstream request'' (Some e)), [])"
  by (subst retryLoop.simps) simp

lemma retryLoop_redisGet [simp]:
  "retryLoop (E\<lparr>redisGet := g\<rparr>) cfg r M a b le = retryLoop E cfg r M a b le"
proof (induction E cfg r M a b le rule: retryLoop.induct)
  case (1 E cfg r M a b le)
  let ?E = "E\<lparr>redisGet := g\<rparr>"
  have cd: "clientDo ?E a = clientDo E a" by (simp add: clientDo_def)
  have nb: "nextBackoff ?E cfg b = nextBackoff E cfg b" by (simp add: nextBackoff_def)
  have nq: "newRequest ?E (req_Method r) (upstreamURL cfg r) =
            newRequest E (req_Method r) (upstreamURL cfg r)" by simp
  show ?case
  proof (cases "a \<le> M")
    case False
    then show ?thesis by (simp add: retryLoop_exhausted)
  next
    case le: True
    show ?thesis
    proof (cases "newRequest E (req_Method r) (upstreamURL cfg r)")
      case (Some e)
      with le nq show ?thesis by (simp add: retryLoop_newRequest_error)
    next
      case None
      show ?thesis
      proof (cases "clientDo E a")
        case (DoError e)
        show ?thesis
        proof (cases "a < M")
          case True
          from "1.IH"(1)[OF le None DoError True]
          show ?thesis
            using True None DoError cd nb nq by (simp add: retryLoop_retry_error)
        next
          case False
          with le have "a = M" by simp
          then show ?thesis using None DoError cd nq by (simp add: retryLoop_last_error)
        qed
      next
        case (DoResponse rp)
        show ?thesis
        proof (cases "isRetryableStatus cfg (resp_StatusCode rp) \<and> a < M")
          case True
          from "1.IH"(2)[OF le None DoResponse True]
          show ?thesis
            using True None DoResponse cd nb nq by (simp add: retryLoop_retry_status)
        next
          case False
          then have "\<not> isRetryableStatus cfg (resp_StatusCode rp) \<or> a = M" using le by auto
          then show ?thesis using le None DoResponse cd nq by (simp add: retryLoop_return)
        qed
      qed
    qed
  qed
qed

lemma headerParts_redisGet [simp]:
  "headerParts (E\<lparr>redisGet := g\<rparr>) hdr hs = headerParts E hdr hs"
  by (induction hs) (simp_all add: Let_def)

lemma keyParts_redisGet [simp]:
  "keyParts (E\<lparr>redisGet := g\<rparr>) r ec = keyParts E r ec"
  by (cases ec) (simp_all add: keyParts_def Let_def)

lemma GenerateCacheKey_redisGet [simp]:
  "GenerateCacheKey (E\<lparr>redisGet := g\<rparr>) r ec = GenerateCacheKey E r ec"
  by (simp add: GenerateCacheKey_def keyString_def)

lemma forwardWithRetry_redisGet [simp]:
  "forwardWithRetry (E\<lparr>redisGet := g\<rparr>) cfg r = forwardWithRetry E cfg r"
  by (simp add: forwardWithRetry_def)

lemma Set_redisGet [simp]:
  "Set (E\<lparr>redisGet := g\<rparr>) k c t = Set E k c t"
  by (simp add: Set_def split: sum.splits)

lemma forwardAndCache_redisGet [simp]:
  "forwardAndCache (E\<lparr>redisGet := g\<rparr>) cfg w r k ec = forwardAndCache E cfg w r k ec"
  by (auto simp: forwardAndCache_def Let_def split: prod.splits sum.splits option.splits)


lemma serveCachedResponse_fresh:
  assumes "w_status w = None"
  shows "serveCachedResponse E w cached =
           (if StatusCode cached < 100 \<or> StatusCode cached > 999
            then Panic ''invalid WriteHeader code''
            else Done
              \<lparr>w_header =
                 (\<lambda>key. if key = ''X-Cache-Time'' then Some [formatRFC3339 E (CachedAt cached)]
                        else if key = ''X-Cache'' then Some [''HIT'']
                        else case Headers cached key of
                               None \<Rightarrow> w_header w key
                             | Some vs \<Rightarrow>
                                 if vs = [] then w_header w key
                                 else Some ((case w_header w key of None \<Rightarrow> [] | Some ws \<Rightarrow> ws) @ vs)),
               w_interim =
                 (if StatusCode cached \<le> 199 \<and> StatusCode cached \<noteq> 101
                  then w_interim w @ [StatusCode cached] else w_interim w),
               w_status =
                 Some (if StatusCode cached \<le> 199 \<and> StatusCode cached \<noteq> 101
                       then 200 else StatusCode cached),
               w_body = w_body w @ Body cached\<rparr>)"
  using assms
  by (simp add: serveCachedResponse_def Let_def WriteHeader_fresh Write_def copyHeaders_def
        Header_Set_def fun_eq_iff)

text \<open>
  C6, as the claim states it, fails for a malformed entry that decodes. The bytes
  \<^verbatim>\<open>{}\<close> decode to an entry with status 0, no headers and no body: the handler takes
  it for a hit, does not call the upstream, and panics when it writes the status 0,
  so that the client gets no response from it; with nothing in the store the same
  request is forwarded and answered 200.
\<close>

theorem decodable_entry_served_as_hit:
  "Get emptyObjectEnv ''cache:GET:/query'' = (Some zeroEntry, None)
   \<and> ServeHTTP emptyObjectEnv sampleConfig freshWriter getQuery =
       (Panic ''invalid WriteHeader code'', [EvCacheGet ''cache:GET:/query''])
   \<and> attemptsOf (snd (ServeHTTP (emptyObjectEnv\<lparr>redisGet := (\<lambda>k. RedisNil)\<rparr>)
                        sampleConfig freshWriter getQuery)) = [1]
   \<and> map_completion (\<lambda>w. (w_status w, w_body w))
       (fst (ServeHTTP (emptyObjectEnv\<lparr>redisGet := (\<lambda>k. RedisNil)\<rparr>)
               sampleConfig freshWriter getQuery)) =
       Done (Some 200, ''{}'')"
  by (simp add: handler_defs retry_defs sample_defs retryLoop.simps writer_defs
        queryRules_defs resolver_defs)

text \<open>
  C6, amended. For a GET request the store read has three outcomes. A fault that
  \<^verbatim>\<open>Get\<close> detects (an error other than not-found, or bytes that do not decode) and a
  read that finds nothing return no entry: only the fault comes with an error, which
  the handler does not pass on; the handler goes on to \<^verbatim>\<open>forwardAndCache\<close> with the
  same arguments, and its response and trace are those it produces when the store
  answers not-found. Bytes that decode are served as a hit whatever the entry holds,
  with no call to the upstream: on a writer whose status is not yet written, an entry
  whose status is outside 100..999 makes the handler panic, any other entry is written
  with its status (200 after an informational one), the two cache headers and its
  body. The three outcomes are all there are.
\<close>


theorem store_fault_is_miss:
  assumes get: "req_Method r = ''GET''"
      and ec: "endpointConfig =
                 GetEndpointCacheConfig (Endpoints (Cache cfg)) (req_Path r) (req_Method r) (req_Query r)"
      and key: "cacheKey = GenerateCacheKey E r endpointConfig"
  shows "(storeFault E cacheKey \<or> redisGet E cacheKey = RedisNil \<longrightarrow>
            fst (Get E cacheKey) = None
          \<and> (storeFault E cacheKey \<longrightarrow> snd (Get E cacheKey) \<noteq> None)
          \<and> (redisGet E cacheKey = RedisNil \<longrightarrow> snd (Get E cacheKey) = None)
          \<and> ServeHTTP E cfg w r =
              emit [EvCacheGet cacheKey] (forwardAndCache E cfg w r cacheKey endpointConfig)
          \<and> ServeHTTP E cfg w r = ServeHTTP (E\<lparr>redisGet := (\<lambda>k. RedisNil)\<rparr>) cfg w r)
       \<and> (\<forall>data cached.
            redisGet E cacheKey = RedisBytes data \<and> jsonUnmarshal E data = Inr cached \<longrightarrow>
            Get E cacheKey = (Some cached, None)
          \<and> ServeHTTP E cfg w r = (serveCachedResponse E w cached, [EvCacheGet cacheKey])
          \<and> (w_status w = None \<longrightarrow>
               map_completion
                 (\<lambda>w'. (w_status w', w_body w', w_header w' ''X-Cache'', w_header w' ''X-Cache-Time''))
                 (serveCachedResponse E w cached) =
                 (if StatusCode cached < 100 \<or> StatusCode cached > 999
                  then Panic ''invalid WriteHeader code''
                  else Done
                    (Some (if StatusCode cached \<le> 199 \<and> StatusCode cached \<noteq> 101
                           then 200 else StatusCode cached),
                     w_body w @ Body cached, Some [''HIT''],
                     Some [formatRFC3339 E (CachedAt cached)]))))
       \<and> (storeFault E cacheKey \<or> redisGet E cacheKey = RedisNil \<or>
          (\<exists>data cached. redisGet E cacheKey = RedisBytes data \<and> jsonUnmarshal E data = Inr cached))"
proof -
  have ec': "endpointConfig =
      GetEndpointCacheConfig (Endpoints (Cache cfg)) (req_Path r) ''GET'' (req_Query r)"
    using ec get by simp
  have err: "storeFault E cacheKey \<longrightarrow> snd (Get E cacheKey) \<noteq> None"
    by (auto simp: Get_def storeFault_def split: RedisReply.splits sum.splits)
  have nil: "redisGet E cacheKey = RedisNil \<longrightarrow> snd (Get E cacheKey) = None"
    by (simp add: Get_def)
  have s2: "ServeHTTP (E\<lparr>redisGet := (\<lambda>k. RedisNil)\<rparr>) cfg w r =
              emit [EvCacheGet cacheKey] (forwardAndCache E cfg w r cacheKey endpointConfig)"
    unfolding key ec' by (simp add: ServeHTTP_def get Let_def Get_def)
  have fault: "storeFault E cacheKey \<or> redisGet E cacheKey = RedisNil \<longrightarrow>
            fst (Get E cacheKey) = None
          \<and> (storeFault E cacheKey \<longrightarrow> snd (Get E cacheKey) \<noteq> None)
          \<and> (redisGet E cacheKey = RedisNil \<longrightarrow> snd (Get E cacheKey) = None)
          \<and> ServeHTTP E cfg w r =
              emit [EvCacheGet cacheKey] (forwardAndCache E cfg w r cacheKey endpointConfig)
          \<and> ServeHTTP E cfg w r = ServeHTTP (E\<lparr>redisGet := (\<lambda>k. RedisNil)\<rparr>) cfg w r"
  proof
    assume fault: "storeFault E cacheKey \<or> redisGet E cacheKey = RedisNil"
    have miss: "fst (Get E cacheKey) = None"
      using fault by (auto simp: Get_def storeFault_def split: RedisReply.splits sum.splits)
    obtain e where g: "Get E (GenerateCacheKey E r
        (GetEndpointCacheConfig (Endpoints (Cache cfg)) (req_Path r) ''GET'' (req_Query r))) = (None, e)"
      using miss unfolding key ec' by (metis prod.collapse)
    have s1: "ServeHTTP E cfg w r =
        emit [EvCacheGet cacheKey] (forwardAndCache E cfg w r cacheKey endpointConfig)"
      unfolding key ec' by (simp add: ServeHTTP_def get g Let_def)
    have s3: "ServeHTTP E cfg w r = ServeHTTP (E\<lparr>redisGet := (\<lambda>k. RedisNil)\<rparr>) cfg w r"
      by (simp only: s1 s2)
    from miss err nil s1 s3
    show "fst (Get E cacheKey) = None
          \<and> (storeFault E cacheKey \<longrightarrow> snd (Get E cacheKey) \<noteq> None)
          \<and> (redisGet E cacheKey = RedisNil \<longrightarrow> snd (Get E cacheKey) = None)
          \<and> ServeHTTP E cfg w r =
              emit [EvCacheGet cacheKey] (forwardAndCache E cfg w r cacheKey endpointConfig)
          \<and> ServeHTTP E cfg w r = ServeHTTP (E\<lparr>redisGet := (\<lambda>k. RedisNil)\<rparr>) cfg w r"
      by blast
  qed
  have hit: "\<forall>data cached.
            redisGet E cacheKey = RedisBytes data \<and> jsonUnmarshal E data = Inr cached \<longrightarrow>
            Get E cacheKey = (Some cached, None)
          \<and> ServeHTTP E cfg w r = (serveCachedResponse E w cached, [EvCacheGet cacheKey])
          \<and> (w_status w = None \<longrightarrow>
               map_completion
                 (\<lambda>w'. (w_status w', w_body w', w_header w' ''X-Cache'', w_header w' ''X-Cache-Time''))
                 (serveCachedResponse E w cached) =
                 (if StatusCode cached < 100 \<or> StatusCode cached > 999
                  then Panic ''invalid WriteHeader code''
                  else Done
                    (Some (if StatusCode cached \<le> 199 \<and> StatusCode cached \<noteq> 101
                           then 200 else StatusCode cached),
                     w_body w @ Body cached, Some [''HIT''],
                     Some [formatRFC3339 E (CachedAt cached)])))"
  proof (intro allI impI)
    fix data cached
    assume d: "redisGet E cacheKey = RedisBytes data \<and> jsonUnmarshal E data = Inr cached"
    then have g: "Get E cacheKey = (Some cached, None)" by (simp add: Get_def)
    then have g': "Get E (GenerateCacheKey E r
        (GetEndpointCacheConfig (Endpoints (Cache cfg)) (req_Path r) ''GET'' (req_Query r))) =
        (Some cached, None)"
      unfolding key ec' .
    have s: "ServeHTTP E cfg w r = (serveCachedResponse E w cached, [EvCacheGet cacheKey])"
      unfolding key ec' by (simp add: ServeHTTP_def get g' Let_def)
    have sc: "w_status w = None \<longrightarrow>
               map_completion
                 (\<lambda>w'. (w_status w', w_body w', w_header w' ''X-Cache'', w_header w' ''X-Cache-Time''))
                 (serveCachedResponse E w cached) =
                 (if StatusCode cached < 100 \<or> StatusCode cached > 999
                  then Panic ''invalid WriteHeader code''
                  else Done
                    (Some (if StatusCode cached \<le> 199 \<and> StatusCode cached \<noteq> 101
                           then 200 else StatusCode cached),
                     w_body w @ Body cached, Some [''HIT''],
                     Some [formatRFC3339 E (CachedAt cached)]))"
      by (simp add: serveCachedResponse_fresh)
    from g s sc
    show "Get E cacheKey = (Some cached, None)
          \<and> ServeHTTP E cfg w r = (serveCachedResponse E w cached, [EvCacheGet cacheKey])
          \<and> (w_status w = None \<longrightarrow>
               map_completion
                 (\<lambda>w'. (w_status w', w_body w', w_header w' ''X-Cache'', w_header w' ''X-Cache-Time''))
                 (serveCachedResponse E w cached) =
                 (if StatusCode cached < 100 \<or> StatusCode cached > 999
                  then Panic ''invalid WriteHeader code''
                  else Done
                    (Some (if StatusCode cached \<le> 199 \<and> StatusCode cached \<noteq> 101
                           then 200 else StatusCode cached),
                     w_body w @ Body cached, Some [''HIT''],
                     Some [formatRFC3339 E (CachedAt cached)])))"
      by blast
  qed
  have all: "storeFault E cacheKey \<or> redisGet E cacheKey = RedisNil \<or>
          (\<exists>data cached. redisGet E cacheKey = RedisBytes data \<and> jsonUnmarshal E data = Inr cached)"
    by (auto simp: storeFault_def split: RedisReply.splits sum.splits)
  from fault hit all show ?thesis by blast
qed

theorem store_fault_is_miss_witness:
  "storeFault storeErrorEnv ''cache:GET:/query'' \<and> storeFault malformedEnv ''cache:GET:/query''
   \<and> map_completion (\<lambda>w. (w_status w, w_body w))
       (fst (ServeHTTP storeErrorEnv sampleConfig freshWriter getQuery)) = Done (Some 200, ''{}'')
   \<and> attemptsOf (snd (ServeHTTP storeErrorEnv sampleConfig freshWriter getQuery)) = [1]
   \<and> ServeHTTP storeErrorEnv sampleConfig freshWriter getQuery =
       ServeHTTP okEnv sampleConfig freshWriter getQuery
   \<and> ServeHTTP malformedEnv sampleConfig freshWriter getQuery =
       ServeHTTP okEnv sampleConfig freshWriter getQuery
   \<and> redisGet hitEnv ''cache:GET:/query'' = RedisBytes ''entry''
   \<and> jsonUnmarshal hitEnv ''entry'' = Inr storedEntry
   \<and> snd (ServeHTTP hitEnv sampleConfig freshWriter getQuery) = [EvCacheGet ''cache:GET:/query'']
   \<and> map_completion (\<lambda>w. (w_status w, w_header w ''X-Cache'', w_body w))
       (fst (ServeHTTP hitEnv sampleConfig freshWriter getQuery)) =
       Done (Some 200, Some [''HIT''], ''{}'')
   \<and> redisGet emptyObjectEnv ''cache:GET:/query'' = RedisBytes ''{}''
   \<and> jsonUnmarshal emptyObjectEnv ''{}'' = Inr zeroEntry
   \<and> fst (ServeHTTP emptyObjectEnv sampleConfig freshWriter getQuery) =
       Panic ''invalid WriteHeader code''"
  using store_fault_is_miss [where E = storeErrorEnv and r = getQuery and cfg = sampleConfig
          and w = freshWriter and endpointConfig = "Some queryRuleDaily"
          and cacheKey = "''cache:GET:/query''"]
        store_fault_is_miss [where E = malformedEnv and r = getQuery and cfg = sampleConfig
          and w = freshWriter and endpointConfig = "Some queryRuleDaily"
          and cacheKey = "''cache:GET:/query''"]
        store_fault_is_miss [where E = hitEnv and r = getQuery and cfg = sampleConfig
          and w = freshWriter and endpointConfig = "Some queryRuleDaily"
          and cacheKey = "''cache:GET:/query''"]
        store_fault_is_miss [where E = emptyObjectEnv and r = getQuery and cfg = sampleConfig
          and w = freshWriter and endpointConfig = "Some queryRuleDaily"
          and cacheKey = "''cache:GET:/query''"]
  by (simp add: storeFault_def handler_defs retry_defs sample_defs retryLoop.simps writer_defs
        queryRules_defs resolver_defs)


text \<open>
  C7, as the claim states it, fails: the 502 sent when the upstream is unreachable and
  the 500 sent when the upstream body fails while read carry no \<^verbatim>\<open>X-Cache\<close> header.
\<close>


theorem error_response_without_cache_header:
  "map_completion (\<lambda>w. (w_status w, w_header w ''X-Cache''))
     (fst (ServeHTTP downEnv sampleConfig freshWriter getQuery)) = Done (Some 502, None)
   \<and> map_completion (\<lambda>w. (w_status w, w_header w ''X-Cache''))
       (fst (ServeHTTP truncatedEnv sampleConfig freshWriter getQuery)) = Done (Some 500, None)"
  by (simp add: handler_defs retry_defs sample_defs retryLoop.simps writer_defs
        queryRules_defs resolver_defs)

lemma served_headers:
  assumes "WriteHeader (w\<lparr>w_header := h\<rparr>) code = Done w1"
  shows "w_header (Write w1 body) = h"
  using assms by (auto simp: WriteHeader_def Write_def Let_def split: if_splits)


text \<open>
  C7, amended. For a GET request, whenever the handler completes and so leaves a
  response: a response served from the cache carries \<^verbatim>\<open>X-Cache: HIT\<close> and
  \<^verbatim>\<open>X-Cache-Time\<close> with the formatted storage time; a response built from an upstream
  response whose body was read carries \<^verbatim>\<open>X-Cache: MISS\<close>, and the handler adds no
  \<^verbatim>\<open>X-Cache-Time\<close> to it (the header is there only if the upstream response or the
  writer already had it). In both cases the handler completes unless it panics on a
  status code outside 100..999. The error responses (502 when the upstream call
  fails, 500 when the body fails while read) are always written, and leave both
  headers as they were on the writer, absent on a fresh one.
\<close>


theorem cache_header_on_served_responses:
  assumes get: "req_Method r = ''GET''"
      and ec: "endpointConfig =
                 GetEndpointCacheConfig (Endpoints (Cache cfg)) (req_Path r) (req_Method r) (req_Query r)"
      and key: "cacheKey = GenerateCacheKey E r endpointConfig"
      and out: "res = fst (ServeHTTP E cfg w r)"
  shows "(\<forall>cached. fst (Get E cacheKey) = Some cached \<longrightarrow>
            (\<forall>w'. res = Done w' \<longrightarrow>
               w_header w' ''X-Cache'' = Some [''HIT''] \<and>
               w_header w' ''X-Cache-Time'' = Some [formatRFC3339 E (CachedAt cached)]) \<and>
            (\<exists>w'. res = Done w') =
              (w_status w \<noteq> None \<or> (100 \<le> StatusCode cached \<and> StatusCode cached \<le> 999)))
       \<and> (fst (Get E cacheKey) = None \<longrightarrow>
            (\<forall>resp body. fst (forwardWithRetry E cfg r) = Inr resp \<and> resp_Body resp = (body, None) \<longrightarrow>
               (\<forall>w'. res = Done w' \<longrightarrow>
                  w_header w' ''X-Cache'' = Some [''MISS''] \<and>
                  w_header w' ''X-Cache-Time'' =
                    (case resp_Header resp ''X-Cache-Time'' of
                       None \<Rightarrow> w_header w ''X-Cache-Time''
                     | Some vs \<Rightarrow>
                         if vs = [] then w_header w ''X-Cache-Time''
                         else Some ((case w_header w ''X-Cache-Time'' of None \<Rightarrow> [] | Some ws \<Rightarrow> ws)
                                    @ vs))) \<and>
               (\<exists>w'. res = Done w') =
                 (w_status w \<noteq> None \<or> (100 \<le> resp_StatusCode resp \<and> resp_StatusCode resp \<le> 999))) \<and>
            ((\<exists>err. fst (forwardWithRetry E cfg r) = Inl err) \<or>
             (\<exists>resp partial err. fst (forwardWithRetry E cfg r) = Inr resp \<and>
                                   resp_Body resp = (partial, Some err)) \<longrightarrow>
               (\<exists>w'. res = Done w' \<and>
                  w_header w' ''X-Cache'' = w_header w ''X-Cache'' \<and>
                  w_header w' ''X-Cache-Time'' = w_header w ''X-Cache-Time'')))"
proof -
  have ec': "endpointConfig =
      GetEndpointCacheConfig (Endpoints (Cache cfg)) (req_Path r) ''GET'' (req_Query r)"
    using ec get by simp
  have hit: "\<And>cached. fst (Get E cacheKey) = Some cached \<Longrightarrow>
      res = serveCachedResponse E w cached"
    unfolding out key ec'
    by (auto simp: ServeHTTP_def get Let_def split: prod.splits option.splits)
  have miss: "fst (Get E cacheKey) = None \<Longrightarrow>
      res = fst (forwardAndCache E cfg w r cacheKey endpointConfig)"
    unfolding out key ec'
    by (auto simp: ServeHTTP_def get Let_def emit_def split: prod.splits option.splits)
  show ?thesis
  proof (intro conjI allI impI)
    fix cached w' assume "fst (Get E cacheKey) = Some cached" and d: "res = Done w'"
    from hit[OF this(1)] d
    have "\<exists>w1. WriteHeader
             (w\<lparr>w_header := Header_Set (Header_Set (copyHeaders (Headers cached) (w_header w))
                                ''X-Cache'' ''HIT'') ''X-Cache-Time''
                                (formatRFC3339 E (CachedAt cached))\<rparr>) (StatusCode cached) = Done w1 \<and>
            w' = Write w1 (Body cached)"
      by (auto simp: serveCachedResponse_def Let_def split: completion.splits)
    then obtain w1 where
      "WriteHeader
             (w\<lparr>w_header := Header_Set (Header_Set (copyHeaders (Headers cached) (w_header w))
                                ''X-Cache'' ''HIT'') ''X-Cache-Time''
                                (formatRFC3339 E (CachedAt cached))\<rparr>) (StatusCode cached) = Done w1"
      and "w' = Write w1 (Body cached)" by blast
    from served_headers[OF this(1), of "Body cached"] this(2)
    show "w_header w' ''X-Cache'' = Some [''HIT'']"
      and "w_header w' ''X-Cache-Time'' = Some [formatRFC3339 E (CachedAt cached)]"
      by (simp_all add: Header_Set_def)
  next
    fix cached assume "fst (Get E cacheKey) = Some cached"
    from hit[OF this]
    show "(\<exists>w'. res = Done w') =
              (w_status w \<noteq> None \<or> (100 \<le> StatusCode cached \<and> StatusCode cached \<le> 999))"
      by (auto simp: serveCachedResponse_def Let_def WriteHeader_def split: completion.splits)
  next
    fix resp body w'
    assume m: "fst (Get E cacheKey) = None"
       and f: "fst (forwardWithRetry E cfg r) = Inr resp \<and> resp_Body resp = (body, None)"
       and d: "res = Done w'"
    then obtain evs where fe: "forwardWithRetry E cfg r = (Inr resp, evs)"
      by (cases "forwardWithRetry E cfg r") auto
    from miss[OF m] f fe d
    have "\<exists>w1. WriteHeader
             (w\<lparr>w_header := Header_Set (copyHeaders (resp_Header resp) (w_header w))
                                ''X-Cache'' ''MISS''\<rparr>) (resp_StatusCode resp) = Done w1 \<and>
            w' = Write w1 body"
      by (auto simp: forwardAndCache_def Let_def split: completion.splits)
    then obtain w1 where
      "WriteHeader
             (w\<lparr>w_header := Header_Set (copyHeaders (resp_Header resp) (w_header w))
                                ''X-Cache'' ''MISS''\<rparr>) (resp_StatusCode resp) = Done w1"
      and "w' = Write w1 body" by blast
    from served_headers[OF this(1), of body] this(2)
    show "w_header w' ''X-Cache'' = Some [''MISS'']"
      and "w_header w' ''X-Cache-Time'' =
                    (case resp_Header resp ''X-Cache-Time'' of
                       None \<Rightarrow> w_header w ''X-Cache-Time''
                     | Some vs \<Rightarrow>
                         if vs = [] then w_header w ''X-Cache-Time''
                         else Some ((case w_header w ''X-Cache-Time'' of None \<Rightarrow> [] | Some ws \<Rightarrow> ws)
                                    @ vs))"
      by (simp_all add: Header_Set_def copyHeaders_def)
  next
    fix resp body
    assume m: "fst (Get E cacheKey) = None"
       and f: "fst (forwardWithRetry E cfg r) = Inr resp \<and> resp_Body resp = (body, None)"
    then obtain evs where fe: "forwardWithRetry E cfg r = (Inr resp, evs)"
      by (cases "forwardWithRetry E cfg r") auto
    from miss[OF m] f fe
    show "(\<exists>w'. res = Done w') =
                 (w_status w \<noteq> None \<or> (100 \<le> resp_StatusCode resp \<and> resp_StatusCode resp \<le> 999))"
      by (auto simp: forwardAndCache_def Let_def WriteHeader_def split: completion.splits)
  next
    assume m: "fst (Get E cacheKey) = None"
       and f: "(\<exists>err. fst (forwardWithRetry E cfg r) = Inl err) \<or>
             (\<exists>resp partial err. fst (forwardWithRetry E cfg r) = Inr resp \<and>
                                   resp_Body resp = (partial, Some err))"
    have "res = http_Error w ''upstream service unavailable'' 502 \<or>
          res = http_Error w ''failed to read upstream response'' 500"
      using miss[OF m] f
      by (cases "forwardWithRetry E cfg r") (auto simp: forwardAndCache_def)
    then show "\<exists>w'. res = Done w' \<and>
                  w_header w' ''X-Cache'' = w_header w ''X-Cache'' \<and>
                  w_header w' ''X-Cache-Time'' = w_header w ''X-Cache-Time''"
      by (auto simp: writer_defs Let_def)
  qed
qed

theorem cache_header_on_served_responses_witness:
  "map_completion (\<lambda>w. (w_header w ''X-Cache'', w_header w ''X-Cache-Time''))
     (fst (ServeHTTP hitEnv sampleConfig freshWriter getQuery)) =
     Done (Some [''HIT''], Some [''2026-01-01T00:00:00Z''])
   \<and> map_completion (\<lambda>w. (w_header w ''X-Cache'', w_header w ''X-Cache-Time''))
       (fst (ServeHTTP okEnv sampleConfig freshWriter getQuery)) = Done (Some [''MISS''], None)
   \<and> map_completion (\<lambda>w. (w_header w ''X-Cache'', w_header w ''X-Cache-Time''))
       (fst (ServeHTTP downEnv sampleConfig freshWriter getQuery)) = Done (None, None)"
proof -
  have m: "req_Method getQuery = ''GET''" by (simp add: getQuery_def)
  note ec = sample_resolution[symmetric]
  have kh: "''cache:GET:/query'' = GenerateCacheKey hitEnv getQuery (Some queryRuleDaily)"
    and ko: "''cache:GET:/query'' = GenerateCacheKey okEnv getQuery (Some queryRuleDaily)"
    and kd: "''cache:GET:/query'' = GenerateCacheKey downEnv getQuery (Some queryRuleDaily)"
    by (simp_all add: sample_key hitEnv_def okEnv_def downEnv_def sampleEnv_def)
  have gh: "fst (Get hitEnv ''cache:GET:/query'') = Some storedEntry"
    and go: "fst (Get okEnv ''cache:GET:/query'') = None"
    and gd: "fst (Get downEnv ''cache:GET:/query'') = None"
    by (simp_all add: Get_def sample_defs)
  have fo: "fst (forwardWithRetry okEnv sampleConfig getQuery) = Inr okResponse \<and>
            resp_Body okResponse = (''{}'', None)"
    by (simp add: retry_defs sample_defs retryLoop.simps)
  have fd: "\<exists>err. fst (forwardWithRetry downEnv sampleConfig getQuery) = Inl err"
    by (simp add: retry_defs sample_defs retryLoop.simps)
  have dh: "\<exists>w'. fst (ServeHTTP hitEnv sampleConfig freshWriter getQuery) = Done w'"
    using cache_header_on_served_responses[OF m ec kh refl, of freshWriter,
            THEN conjunct1, rule_format, OF gh, THEN conjunct2]
    by (simp add: sample_defs)
  have do: "\<exists>w'. fst (ServeHTTP okEnv sampleConfig freshWriter getQuery) = Done w'"
    using cache_header_on_served_responses[OF m ec ko refl, of freshWriter,
            THEN conjunct2, rule_format, OF go, THEN conjunct1, rule_format, OF fo, THEN conjunct2]
    by (simp add: sample_defs)
  from dh obtain wh where wh: "fst (ServeHTTP hitEnv sampleConfig freshWriter getQuery) = Done wh" ..
  from do obtain wo where wo: "fst (ServeHTTP okEnv sampleConfig freshWriter getQuery) = Done wo" ..
  have h: "w_header wh ''X-Cache'' = Some [''HIT''] \<and>
           w_header wh ''X-Cache-Time'' = Some [formatRFC3339 hitEnv (CachedAt storedEntry)]"
    by (rule cache_header_on_served_responses[OF m ec kh refl, of freshWriter,
            THEN conjunct1, rule_format, OF gh, THEN conjunct1, rule_format, OF wh])
  have o: "w_header wo ''X-Cache'' = Some [''MISS''] \<and>
           w_header wo ''X-Cache-Time'' =
             (case resp_Header okResponse ''X-Cache-Time'' of
                None \<Rightarrow> w_header freshWriter ''X-Cache-Time''
              | Some vs \<Rightarrow>
                  if vs = [] then w_header freshWriter ''X-Cache-Time''
                  else Some ((case w_header freshWriter ''X-Cache-Time'' of None \<Rightarrow> [] | Some ws \<Rightarrow> ws)
                             @ vs))"
    by (rule cache_header_on_served_responses[OF m ec ko refl, of freshWriter,
            THEN conjunct2, rule_format, OF go, THEN conjunct1, rule_format, OF fo,
            THEN conjunct1, rule_format, OF wo])
  have d: "\<exists>w'. fst (ServeHTTP downEnv sampleConfig freshWriter getQuery) = Done w' \<and>
              w_header w' ''X-Cache'' = w_header freshWriter ''X-Cache'' \<and>
              w_header w' ''X-Cache-Time'' = w_header freshWriter ''X-Cache-Time''"
    using fd
    by (intro cache_header_on_served_responses[OF m ec kd refl, of freshWriter,
            THEN conjunct2, rule_format, OF gd, THEN conjunct2, rule_format]) simp
  from d obtain wd where wd: "fst (ServeHTTP downEnv sampleConfig freshWriter getQuery) = Done wd"
    and hd: "w_header wd ''X-Cache'' = w_header freshWriter ''X-Cache''"
            "w_header wd ''X-Cache-Time'' = w_header freshWriter ''X-Cache-Time''" by blast
  show ?thesis
    unfolding wh wo wd using h o hd by (simp add: sample_defs)
qed


section \<open>Properties of the cache key\<close>

lemma queryParts_cong:
  "(\<And>p. p \<in> set ps \<Longrightarrow> Values_Get q1 p = Values_Get q2 p) \<Longrightarrow> queryParts q1 ps = queryParts q2 ps"
  by (induction ps) (simp_all add: Let_def)

lemma headerParts_cong:
  "(\<And>h. h \<in> set hs \<Longrightarrow> Values_Get h1 (canonicalKey E h) = Values_Get h2 (canonicalKey E h)) \<Longrightarrow>
   headerParts E h1 hs = headerParts E h2 hs"
  by (induction hs) (simp_all add: Let_def)

lemma keyString_same_values:
  assumes "req_Method r1 = req_Method r2" and "req_Path r1 = req_Path r2"
      and "\<And>ec p. endpointConfig = Some ec \<Longrightarrow> p \<in> set (CacheKeyQueryParams ec) \<Longrightarrow>
             Values_Get (req_Query r1) p = Values_Get (req_Query r2) p"
      and "\<And>ec h. endpointConfig = Some ec \<Longrightarrow> h \<in> set (CacheKeyHeaders ec) \<Longrightarrow>
             Values_Get (req_Header r1) (canonicalKey E h) = Values_Get (req_Header r2) (canonicalKey E h)"
  shows "keyString E r1 endpointConfig = keyString E r2 endpointConfig"
proof (cases endpointConfig)
  case None
  with assms(1,2) show ?thesis by (simp add: keyString_def keyParts_def)
next
  case (Some ec)
  have q: "queryParts (req_Query r1) (CacheKeyQueryParams ec) = queryParts (req_Query r2) (CacheKeyQueryParams ec)"
    using assms(3)[OF Some] by (rule queryParts_cong)
  have h: "headerParts E (req_Header r1) (CacheKeyHeaders ec) = headerParts E (req_Header r2) (CacheKeyHeaders ec)"
    using assms(4)[OF Some] by (rule headerParts_cong)
  show ?thesis using assms(1,2) by (simp add: keyString_def keyParts_def Some q h)
qed

lemma Values_Get_other [simp]: "q \<noteq> p \<Longrightarrow> Values_Get (m(q := v)) p = Values_Get m p"
  by (simp add: Values_Get_def)

lemma sort_Nil_iff [simp]: "(sort xs = []) = (xs = [])"
  using length_sort[of "\<lambda>x. x" xs] by (metis length_0_conv)

lemma queryParts_partsOf: "queryParts q ps = partsOf (Values_Get q) ps"
  by (induction ps) (simp_all add: partsOf_def Let_def)

lemma headerParts_partsOf: "headerParts E h hs = partsOf (\<lambda>n. Values_Get h (canonicalKey E n)) hs"
  by (induction hs) (simp_all add: partsOf_def Let_def)

lemma partsOf_count:
  assumes "\<forall>p \<in> set ps. p \<noteq> a \<longrightarrow> G1 p = G2 p" and "G1 a \<noteq> []" and "G1 a \<noteq> G2 a"
  shows "length (filter (\<lambda>s. s = a @ ''='' @ G1 a) (partsOf G1 ps)) =
         length (filter (\<lambda>s. s = a @ ''='' @ G1 a) (partsOf G2 ps)) + count_list ps a"
  using assms(1)
proof (induction ps)
  case Nil
  show ?case by (simp add: partsOf_def)
next
  case (Cons p ps)
  then have ih: "length (filter (\<lambda>s. s = a @ ''='' @ G1 a) (partsOf G1 ps)) =
         length (filter (\<lambda>s. s = a @ ''='' @ G1 a) (partsOf G2 ps)) + count_list ps a" by simp
  show ?case
  proof (cases "p = a")
    case True
    with ih assms(2,3) show ?thesis by (simp add: partsOf_def)
  next
    case False
    with Cons.prems have "G1 p = G2 p" by simp
    with False ih show ?thesis by (simp add: partsOf_def)
  qed
qed

lemma partsOf_not_perm:
  assumes "\<forall>p \<in> set ps. p \<noteq> a \<longrightarrow> G1 p = G2 p" and "G1 a \<noteq> G2 a" and "a \<in> set ps"
  shows "sort (partsOf G1 ps) \<noteq> sort (partsOf G2 ps)"
proof
  assume eq: "sort (partsOf G1 ps) = sort (partsOf G2 ps)"
  have len: "\<And>P L. length (filter P (sort L)) = length (filter P (L :: string list))"
    by (simp add: filter_sort)
  have pos: "0 < count_list ps a" using assms(3) count_list_0_iff[of ps a] by auto
  show False
  proof (cases "G1 a \<noteq> []")
    case True
    from partsOf_count[OF assms(1) True assms(2)] pos
    have "length (filter (\<lambda>s. s = a @ ''='' @ G1 a) (partsOf G1 ps)) \<noteq>
          length (filter (\<lambda>s. s = a @ ''='' @ G1 a) (partsOf G2 ps))" by simp
    with len[of "\<lambda>s. s = a @ ''='' @ G1 a"] eq show False by metis
  next
    case False
    with assms(2) have ne: "G2 a \<noteq> []" by auto
    have sym: "\<forall>p \<in> set ps. p \<noteq> a \<longrightarrow> G2 p = G1 p" using assms(1) by simp
    from partsOf_count[OF sym ne] assms(2) pos
    have "length (filter (\<lambda>s. s = a @ ''='' @ G2 a) (partsOf G2 ps)) \<noteq>
          length (filter (\<lambda>s. s = a @ ''='' @ G2 a) (partsOf G1 ps))" by simp
    with len[of "\<lambda>s. s = a @ ''='' @ G2 a"] eq show False by metis
  qed
qed

lemma part_le_names:
  assumes "CHR ''='' \<notin> set n" and "CHR ''='' \<notin> set m" and "n \<noteq> m"
  shows "(n @ CHR ''='' # v \<le> m @ CHR ''='' # w) = (n @ [CHR ''=''] \<le> m @ [CHR ''=''])"
  using assms
proof (induction n arbitrary: m)
  case Nil
  then show ?case by (cases m) auto
next
  case (Cons c n)
  then show ?case by (cases m) auto
qed

lemma insort_key_order_cong:
  "(\<And>y. y \<in> set ys \<Longrightarrow> (f x \<le> f y) = (g x \<le> g y)) \<Longrightarrow> insort_key f x ys = insort_key g x ys"
  by (induction ys) auto

lemma sort_key_order_cong:
  "(\<And>x y. x \<in> set xs \<Longrightarrow> y \<in> set xs \<Longrightarrow> (f x \<le> f y) = (g x \<le> g y)) \<Longrightarrow>
   sort_key f xs = sort_key g xs"
proof (induction xs)
  case Nil
  show ?case by simp
next
  case (Cons x xs)
  have "sort_key f xs = sort_key g xs" using Cons by simp
  moreover have "insort_key f x (sort_key g xs) = insort_key g x (sort_key g xs)"
    using Cons.prems by (intro insort_key_order_cong) simp
  ultimately show ?case by simp
qed

lemma insort_map: "insort (h x) (map h ys) = map h (insort_key h x ys)"
  by (induction ys) auto

lemma sort_map_key: "sort (map h xs) = map h (sort_key h xs)"
  by (induction xs) (simp_all add: insort_map)

lemma Join_Cons: "Join (x # B) sep = x @ concat (map (\<lambda>s. sep @ s) B)"
  by (induction B arbitrary: x) simp_all

lemma Join_append_mid:
  "Join (A @ x # B) sep = concat (map (\<lambda>s. s @ sep) A) @ x @ concat (map (\<lambda>s. sep @ s) B)"
proof (induction A)
  case Nil
  show ?case by (simp add: Join_Cons)
next
  case (Cons a A)
  obtain y ys where "A @ x # B = y # ys" by (cases "A @ x # B") auto
  with Cons show ?case by simp
qed

lemma Join_length:
  "xs \<noteq> [] \<Longrightarrow> length (Join xs sep) + length sep = sum_list (map (\<lambda>s. length s + length sep) xs)"
  by (induction xs sep rule: Join.induct) simp_all

lemma sum_list_insort:
  "sum_list (map f (insort x xs)) = f x + sum_list (map f (xs :: string list))"
  for f :: "string \<Rightarrow> nat"
  by (induction xs) simp_all

lemma sum_list_sort:
  "sum_list (map f (sort xs)) = sum_list (map f (xs :: string list))" for f :: "string \<Rightarrow> nat"
  by (induction xs) (simp_all add: sum_list_insort)

lemma partsOf_sum:
  "sum_list (map f (partsOf G ps)) =
   sum_list (map (\<lambda>n. if G n = [] then 0 else f (n @ ''='' @ G n)) ps)" for f :: "string \<Rightarrow> nat"
  by (induction ps) (simp_all add: partsOf_def)

lemma sum_list_one_differs:
  fixes u1 u2 :: "string \<Rightarrow> nat"
  assumes "\<forall>p \<in> set ps. p \<noteq> a \<longrightarrow> u1 p = u2 p"
  shows "sum_list (map u1 ps) + count_list ps a * u2 a = sum_list (map u2 ps) + count_list ps a * u1 a"
  using assms by (induction ps) (auto simp: algebra_simps)

lemma partsOf_weight:
  assumes "\<forall>p \<in> set ps. p \<noteq> a \<longrightarrow> G1 p = G2 p"
  shows "sum_list (map (\<lambda>s. length s + k) (partsOf G1 ps)) +
           count_list ps a * (if G2 a = [] then 0 else length a + 1 + length (G2 a) + k) =
         sum_list (map (\<lambda>s. length s + k) (partsOf G2 ps)) +
           count_list ps a * (if G1 a = [] then 0 else length a + 1 + length (G1 a) + k)"
proof -
  let ?u = "\<lambda>G n. if G n = [] then 0 else length (n @ ''='' @ G n) + k"
  have "\<forall>p \<in> set ps. p \<noteq> a \<longrightarrow> ?u G1 p = ?u G2 p" using assms by simp
  from sum_list_one_differs[OF this]
  have "sum_list (map (?u G1) ps) + count_list ps a * ?u G2 a =
        sum_list (map (?u G2) ps) + count_list ps a * ?u G1 a" .
  moreover have "sum_list (map (\<lambda>s. length s + k) (partsOf G1 ps)) = sum_list (map (?u G1) ps)"
    by (rule partsOf_sum)
  moreover have "sum_list (map (\<lambda>s. length s + k) (partsOf G2 ps)) = sum_list (map (?u G2) ps)"
    by (rule partsOf_sum)
  moreover have "?u G1 a = (if G1 a = [] then 0 else length a + 1 + length (G1 a) + k)" by simp
  moreover have "?u G2 a = (if G2 a = [] then 0 else length a + 1 + length (G2 a) + k)" by simp
  ultimately show ?thesis by (simp only:)
qed

lemma Join_differs_length:
  assumes others: "\<forall>p \<in> set ps. p \<noteq> a \<longrightarrow> G1 p = G2 p" and a: "a \<in> set ps"
      and len: "length (G1 a) \<noteq> length (G2 a)"
      and ne: "partsOf G1 ps \<noteq> []" "partsOf G2 ps \<noteq> []"
  shows "Join (sort (partsOf G1 ps)) sep \<noteq> Join (sort (partsOf G2 ps)) sep"
proof
  assume eq: "Join (sort (partsOf G1 ps)) sep = Join (sort (partsOf G2 ps)) sep"
  let ?k = "length sep"
  have l1: "length (Join (sort (partsOf G1 ps)) sep) + ?k =
            sum_list (map (\<lambda>s. length s + ?k) (partsOf G1 ps))"
    using ne(1) by (simp add: Join_length sum_list_sort)
  have l2: "length (Join (sort (partsOf G2 ps)) sep) + ?k =
            sum_list (map (\<lambda>s. length s + ?k) (partsOf G2 ps))"
    using ne(2) by (simp add: Join_length sum_list_sort)
  from l1 l2 eq have s: "sum_list (map (\<lambda>s. length s + ?k) (partsOf G1 ps)) =
                         sum_list (map (\<lambda>s. length s + ?k) (partsOf G2 ps))" by simp
  have pos: "0 < count_list ps a" using a count_list_0_iff[of ps a] by auto
  from partsOf_weight[OF others, of ?k] s
  have "count_list ps a * (if G2 a = [] then 0 else length a + 1 + length (G2 a) + ?k) =
        count_list ps a * (if G1 a = [] then 0 else length a + 1 + length (G1 a) + ?k)" by simp
  with pos have "(if G2 a = [] then 0 else length a + 1 + length (G2 a) + ?k) =
                 (if G1 a = [] then 0 else length a + 1 + length (G1 a) + ?k)" by simp
  with len show False by (auto split: if_splits)
qed

lemma Join_differs_value:
  assumes others: "\<forall>p \<in> set ps. p \<noteq> a \<longrightarrow> G1 p = G2 p" and a: "a \<in> set ps"
      and diff: "G1 a \<noteq> G2 a" and len: "length (G1 a) = length (G2 a)"
      and names: "\<forall>p \<in> set ps. CHR ''='' \<notin> set p"
  shows "Join (sort (partsOf G1 ps)) sep \<noteq> Join (sort (partsOf G2 ps)) sep"
proof
  assume eq: "Join (sort (partsOf G1 ps)) sep = Join (sort (partsOf G2 ps)) sep"
  let ?h1 = "\<lambda>n. n @ CHR ''='' # G1 n" and ?h2 = "\<lambda>n. n @ CHR ''='' # G2 n"
  from diff len have ne: "G1 a \<noteq> []" "G2 a \<noteq> []" by auto
  have fs: "filter (\<lambda>n. G1 n \<noteq> []) ps = filter (\<lambda>n. G2 n \<noteq> []) ps"
    using others ne by (intro filter_cong) auto
  let ?fs = "filter (\<lambda>n. G2 n \<noteq> []) ps"
  have ord: "sort_key ?h1 ?fs = sort_key ?h2 ?fs"
  proof (rule sort_key_order_cong)
    fix x y assume x: "x \<in> set ?fs" and y: "y \<in> set ?fs"
    show "(?h1 x \<le> ?h1 y) = (?h2 x \<le> ?h2 y)"
    proof (cases "x = y")
      case True
      then show ?thesis by simp
    next
      case False
      from x y names have "CHR ''='' \<notin> set x" "CHR ''='' \<notin> set y" by auto
      from part_le_names[OF this False, of "G1 x" "G1 y"] part_le_names[OF this False, of "G2 x" "G2 y"]
      show ?thesis by simp
    qed
  qed
  let ?zs = "sort_key ?h2 ?fs"
  have s1: "sort (partsOf G1 ps) = map ?h1 ?zs" by (simp add: partsOf_def fs sort_map_key ord)
  have s2: "sort (partsOf G2 ps) = map ?h2 ?zs" by (simp add: partsOf_def sort_map_key)
  have "a \<in> set ?zs" using a ne by simp
  then obtain pre post where zs: "?zs = pre @ a # post" and pre: "a \<notin> set pre"
    by (meson split_list_first)
  have sub: "set pre \<subseteq> set ps"
  proof -
    have "set pre \<subseteq> set ?zs" unfolding zs by auto
    then show ?thesis by auto
  qed
  have m: "map ?h1 pre = map ?h2 pre"
    using others pre sub by (intro map_cong) auto
  from eq have "?h1 a @ concat (map (\<lambda>s. sep @ s) (map ?h1 post)) =
                ?h2 a @ concat (map (\<lambda>s. sep @ s) (map ?h2 post))"
    unfolding s1 s2 zs by (simp add: Join_append_mid m)
  moreover have "length (?h1 a) = length (?h2 a)" using len by simp
  ultimately have "?h1 a = ?h2 a" using append_eq_append_conv by blast
  with diff show False by simp
qed

lemma component_differs_names:
  assumes others: "\<forall>p \<in> set ps. p \<noteq> a \<longrightarrow> G1 p = G2 p" and diff: "G1 a \<noteq> G2 a"
      and a: "a \<in> set ps" and names: "\<forall>p \<in> set ps. CHR ''='' \<notin> set p"
  shows "component (sort (partsOf G1 ps)) sep \<noteq> component (sort (partsOf G2 ps)) sep"
proof
  assume eq: "component (sort (partsOf G1 ps)) sep = component (sort (partsOf G2 ps)) sep"
  note np = partsOf_not_perm[OF others diff a]
  show False
  proof (cases "partsOf G1 ps = [] \<or> partsOf G2 ps = []")
    case True
    with eq np show False by (auto simp: component_def split: if_splits)
  next
    case False
    with eq have j: "Join (sort (partsOf G1 ps)) sep = Join (sort (partsOf G2 ps)) sep"
      by (simp add: component_def)
    show False
    proof (cases "length (G1 a) = length (G2 a)")
      case True
      from Join_differs_value[OF others a diff True names] j show False by simp
    next
      case neq: False
      from False Join_differs_length[OF others a neq] j show False by simp
    qed
  qed
qed

lemma component_short [simp]: "length (component parts sep) \<le> Suc 0"
  by (simp add: component_def)

lemma keyString_components:
  "keyString E r (Some ec) =
     Join ([req_Method r, req_Path r] @
           component (sort (partsOf (Values_Get (req_Query r)) (CacheKeyQueryParams ec))) ''&'' @
           component (sort (partsOf (\<lambda>n. Values_Get (req_Header r) (canonicalKey E n))
                              (CacheKeyHeaders ec))) ''|'') '':''"
  by (auto simp: keyString_def keyParts_def component_def queryParts_partsOf headerParts_partsOf
        Let_def partsOf_def)

lemma Join_frame_middle:
  assumes "Q1 \<noteq> Q2" and "length Q1 \<le> 1" and "length Q2 \<le> 1" and "length H \<le> 1" and "sep \<noteq> []"
  shows "Join ([m, p] @ Q1 @ H) sep \<noteq> Join ([m, p] @ Q2 @ H) sep"
proof -
  have shape: "\<And>L :: string list. length L \<le> 1 \<Longrightarrow> L = [] \<or> (\<exists>x. L = [x])"
    by (case_tac L) (auto simp: length_Suc_conv)
  from shape[OF assms(2)] shape[OF assms(3)] shape[OF assms(4)] assms(1,5)
  show ?thesis
    by (auto dest: arg_cong[where f = length])
qed

lemma Join_frame_last:
  assumes "H1 \<noteq> H2" and "length H1 \<le> 1" and "length H2 \<le> 1" and "length Q \<le> 1" and "sep \<noteq> []"
  shows "Join ([m, p] @ Q @ H1) sep \<noteq> Join ([m, p] @ Q @ H2) sep"
proof -
  have shape: "\<And>L :: string list. length L \<le> 1 \<Longrightarrow> L = [] \<or> (\<exists>x. L = [x])"
    by (case_tac L) (auto simp: length_Suc_conv)
  from shape[OF assms(2)] shape[OF assms(3)] shape[OF assms(4)] assms(1,5)
  show ?thesis
    by (auto dest: arg_cong[where f = length])
qed


lemma keyString_differs_query:
  assumes same: "req_Method r1 = req_Method r2" "req_Path r1 = req_Path r2"
      and a: "a \<in> set (CacheKeyQueryParams ec)"
      and diff: "Values_Get (req_Query r1) a \<noteq> Values_Get (req_Query r2) a"
      and others: "\<forall>p \<in> set (CacheKeyQueryParams ec). p \<noteq> a \<longrightarrow>
                     Values_Get (req_Query r1) p = Values_Get (req_Query r2) p"
      and hdrs: "\<forall>h \<in> set (CacheKeyHeaders ec).
                   Values_Get (req_Header r1) (canonicalKey E h) =
                   Values_Get (req_Header r2) (canonicalKey E h)"
      and names: "\<forall>p \<in> set (CacheKeyQueryParams ec). CHR ''='' \<notin> set p"
  shows "keyString E r1 (Some ec) \<noteq> keyString E r2 (Some ec)"
proof -
  have h: "partsOf (\<lambda>n. Values_Get (req_Header r1) (canonicalKey E n)) (CacheKeyHeaders ec) =
           partsOf (\<lambda>n. Values_Get (req_Header r2) (canonicalKey E n)) (CacheKeyHeaders ec)"
    using headerParts_cong[of "CacheKeyHeaders ec" "req_Header r1" E "req_Header r2"] hdrs
    by (simp add: headerParts_partsOf)
  have q: "component (sort (partsOf (Values_Get (req_Query r1)) (CacheKeyQueryParams ec))) ''&'' \<noteq>
           component (sort (partsOf (Values_Get (req_Query r2)) (CacheKeyQueryParams ec))) ''&''"
    using others diff a names by (intro component_differs_names[of _ a]) auto
  show ?thesis
    unfolding keyString_components same h
    using q by (intro Join_frame_middle) simp_all
qed

lemma keyString_differs_header:
  assumes same: "req_Method r1 = req_Method r2" "req_Path r1 = req_Path r2"
      and a: "a \<in> set (CacheKeyHeaders ec)"
      and diff: "Values_Get (req_Header r1) (canonicalKey E a) \<noteq>
                 Values_Get (req_Header r2) (canonicalKey E a)"
      and others: "\<forall>h \<in> set (CacheKeyHeaders ec). h \<noteq> a \<longrightarrow>
                     Values_Get (req_Header r1) (canonicalKey E h) =
                     Values_Get (req_Header r2) (canonicalKey E h)"
      and params: "\<forall>p \<in> set (CacheKeyQueryParams ec).
                     Values_Get (req_Query r1) p = Values_Get (req_Query r2) p"
      and names: "\<forall>h \<in> set (CacheKeyHeaders ec). CHR ''='' \<notin> set h"
  shows "keyString E r1 (Some ec) \<noteq> keyString E r2 (Some ec)"
proof -
  have q: "partsOf (Values_Get (req_Query r1)) (CacheKeyQueryParams ec) =
           partsOf (Values_Get (req_Query r2)) (CacheKeyQueryParams ec)"
    using queryParts_cong[of "CacheKeyQueryParams ec" "req_Query r1" "req_Query r2"] params
    by (simp add: queryParts_partsOf)
  have h: "component (sort (partsOf (\<lambda>n. Values_Get (req_Header r1) (canonicalKey E n))
                              (CacheKeyHeaders ec))) ''|'' \<noteq>
           component (sort (partsOf (\<lambda>n. Values_Get (req_Header r2) (canonicalKey E n))
                              (CacheKeyHeaders ec))) ''|''"
    using others diff a names by (intro component_differs_names[of _ a]) auto
  show ?thesis
    unfolding keyString_components same q
    using h by (intro Join_frame_last) simp_all
qed

lemma key_same_values:
  assumes m: "req_Method r1 = req_Method r2" and p: "req_Path r1 = req_Path r2"
      and q: "\<forall>p \<in> set (CacheKeyQueryParams ec). Values_Get (req_Query r1) p = Values_Get (req_Query r2) p"
      and h: "\<forall>h \<in> set (CacheKeyHeaders ec).
             Values_Get (req_Header r1) (canonicalKey E h) = Values_Get (req_Header r2) (canonicalKey E h)"
  shows "GenerateCacheKey E r1 (Some ec) = GenerateCacheKey E r2 (Some ec)"
proof -
  have "keyString E r1 (Some ec) = keyString E r2 (Some ec)"
  proof (rule keyString_same_values[OF m p])
    fix ec' p' assume "Some ec = Some ec'" "p' \<in> set (CacheKeyQueryParams ec')"
    with q show "Values_Get (req_Query r1) p' = Values_Get (req_Query r2) p'" by simp
  next
    fix ec' h' assume "Some ec = Some ec'" "h' \<in> set (CacheKeyHeaders ec')"
    with h show "Values_Get (req_Header r1) (canonicalKey E h') =
                 Values_Get (req_Header r2) (canonicalKey E h')" by simp
  qed
  then show ?thesis by (simp add: GenerateCacheKey_def)
qed


lemma key_no_rule:
  assumes "req_Method r1 = req_Method r2" and "req_Path r1 = req_Path r2"
  shows "GenerateCacheKey E r1 None = GenerateCacheKey E r2 None"
  using assms by (simp add: GenerateCacheKey_def keyString_def keyParts_def)

lemma key_ignores_unlisted_param:
  assumes "q \<notin> set (CacheKeyQueryParams ec)"
  shows "GenerateCacheKey E (r\<lparr>req_Query := (req_Query r)(q := v)\<rparr>) (Some ec) =
         GenerateCacheKey E r (Some ec)"
proof (rule key_same_values)
  show "\<forall>p \<in> set (CacheKeyQueryParams ec).
          Values_Get (req_Query (r\<lparr>req_Query := (req_Query r)(q := v)\<rparr>)) p =
          Values_Get (req_Query r) p"
    using assms by (auto simp: Values_Get_def)
qed simp_all

lemma key_ignores_unlisted_header:
  assumes "k \<notin> canonicalKey E ` set (CacheKeyHeaders ec)"
  shows "GenerateCacheKey E (r\<lparr>req_Header := (req_Header r)(k := v)\<rparr>) (Some ec) =
         GenerateCacheKey E r (Some ec)"
proof (rule key_same_values)
  show "\<forall>h \<in> set (CacheKeyHeaders ec).
          Values_Get (req_Header (r\<lparr>req_Header := (req_Header r)(k := v)\<rparr>)) (canonicalKey E h) =
          Values_Get (req_Header r) (canonicalKey E h)"
    using assms by (auto simp: Values_Get_def)
qed simp_all

lemma key_ignores_later_values:
  "GenerateCacheKey E (r\<lparr>req_Query := (req_Query r)(q \<mapsto> x # xs)\<rparr>) (Some ec) =
   GenerateCacheKey E (r\<lparr>req_Query := (req_Query r)(q \<mapsto> x # ys)\<rparr>) (Some ec)"
proof (rule key_same_values)
  show "\<forall>p \<in> set (CacheKeyQueryParams ec).
          Values_Get (req_Query (r\<lparr>req_Query := (req_Query r)(q \<mapsto> x # xs)\<rparr>)) p =
          Values_Get (req_Query (r\<lparr>req_Query := (req_Query r)(q \<mapsto> x # ys)\<rparr>)) p"
    by (simp add: Values_Get_def)
qed simp_all

lemmas key_defs = GenerateCacheKey_def keyString_def keyParts_def Values_Get_def Let_def
  symbolRule_def oddNamesRule_def quoteRequest_def emptyRule_def sampleEnv_def

text \<open>
  C3, as the claim states it, fails in its last part: requests that differ in one
  key-relevant value get the same key string, hence the same key whatever the digest.
  Only the first value of a listed parameter counts (\<^verbatim>\<open>symbol=IBM&symbol=AAPL\<close> and
  \<^verbatim>\<open>symbol=IBM&symbol=MSFT\<close>); an empty value counts as none (\<^verbatim>\<open>symbol=\<close> and no
  \<^verbatim>\<open>symbol\<close>); and the parts are joined without escaping, so that with the listed
  names \<^verbatim>\<open>a\<close> and \<^verbatim>\<open>a=1&a\<close> the values \<^verbatim>\<open>1&a=2\<close> and \<^verbatim>\<open>2&a=1\<close> of \<^verbatim>\<open>a\<close> give one
  string.
\<close>

theorem first_value_only_collisions:
  "keyString sampleEnv (quoteRequest [''symbol'' \<mapsto> [''IBM'', ''AAPL'']]) (Some symbolRule) =
     ''GET:/quote:symbol=IBM:Authorization=Bearer token1''
   \<and> keyString sampleEnv (quoteRequest [''symbol'' \<mapsto> [''IBM'', ''MSFT'']]) (Some symbolRule) =
     ''GET:/quote:symbol=IBM:Authorization=Bearer token1''
   \<and> GenerateCacheKey sampleEnv (quoteRequest [''symbol'' \<mapsto> [''IBM'', ''AAPL'']]) (Some symbolRule) =
     GenerateCacheKey sampleEnv (quoteRequest [''symbol'' \<mapsto> [''IBM'', ''MSFT'']]) (Some symbolRule)
   \<and> keyString sampleEnv (quoteRequest [''symbol'' \<mapsto> [[]]]) (Some symbolRule) =
     ''GET:/quote:Authorization=Bearer token1''
   \<and> keyString sampleEnv (quoteRequest Map.empty) (Some symbolRule) =
     ''GET:/quote:Authorization=Bearer token1''
   \<and> GenerateCacheKey sampleEnv (quoteRequest [''symbol'' \<mapsto> [[]]]) (Some symbolRule) =
     GenerateCacheKey sampleEnv (quoteRequest Map.empty) (Some symbolRule)
   \<and> keyString sampleEnv
       (quoteRequest [''a'' \<mapsto> [''1&a=2''], ''a=1&a'' \<mapsto> [''2&a=1'']]) (Some oddNamesRule) =
     ''GET:/quote:a=1&a=2&a=1&a=2&a=1''
   \<and> keyString sampleEnv
       (quoteRequest [''a'' \<mapsto> [''2&a=1''], ''a=1&a'' \<mapsto> [''2&a=1'']]) (Some oddNamesRule) =
     ''GET:/quote:a=1&a=2&a=1&a=2&a=1''
   \<and> GenerateCacheKey sampleEnv
       (quoteRequest [''a'' \<mapsto> [''1&a=2''], ''a=1&a'' \<mapsto> [''2&a=1'']]) (Some oddNamesRule) =
     GenerateCacheKey sampleEnv
       (quoteRequest [''a'' \<mapsto> [''2&a=1''], ''a=1&a'' \<mapsto> [''2&a=1'']]) (Some oddNamesRule)"
  by (simp add: key_defs)

text \<open>
  C3, amended. The key is a function of the method, the path and, for the names the
  rule lists, the first value of each parameter and header (none when absent or
  empty): requests that agree on these get the same key; without a rule, requests
  that agree on method and path do. Adding, removing or changing a parameter or a
  header the rule does not list, or the values after the first of a listed parameter,
  never changes the key. Two keys are equal exactly when the digests of the two key
  strings are; and when the listed names contain no \<^verbatim>\<open>=\<close> and two requests differ in
  the first value of a single listed parameter or of a single listed header, whatever
  characters the values contain, their key strings differ, so that their keys differ
  unless the digest collides on them.
\<close>

theorem cache_key_first_values:
  "(req_Method r1 = req_Method r2 \<and> req_Path r1 = req_Path r2 \<longrightarrow>
      GenerateCacheKey E r1 None = GenerateCacheKey E r2 None)
   \<and> (req_Method r1 = req_Method r2 \<and> req_Path r1 = req_Path r2 \<and>
       (\<forall>p \<in> set (CacheKeyQueryParams ec).
          Values_Get (req_Query r1) p = Values_Get (req_Query r2) p) \<and>
       (\<forall>h \<in> set (CacheKeyHeaders ec).
          Values_Get (req_Header r1) (canonicalKey E h) =
          Values_Get (req_Header r2) (canonicalKey E h)) \<longrightarrow>
      GenerateCacheKey E r1 (Some ec) = GenerateCacheKey E r2 (Some ec))
   \<and> (q \<notin> set (CacheKeyQueryParams ec) \<longrightarrow>
        GenerateCacheKey E (r\<lparr>req_Query := (req_Query r)(q := v)\<rparr>) (Some ec) =
        GenerateCacheKey E r (Some ec))
   \<and> (k \<notin> canonicalKey E ` set (CacheKeyHeaders ec) \<longrightarrow>
        GenerateCacheKey E (r\<lparr>req_Header := (req_Header r)(k := v)\<rparr>) (Some ec) =
        GenerateCacheKey E r (Some ec))
   \<and> GenerateCacheKey E (r\<lparr>req_Query := (req_Query r)(q \<mapsto> x # xs)\<rparr>) (Some ec) =
       GenerateCacheKey E (r\<lparr>req_Query := (req_Query r)(q \<mapsto> x # ys)\<rparr>) (Some ec)
   \<and> (GenerateCacheKey E r1 c1 = GenerateCacheKey E r2 c2) =
       (sha256hex E (keyString E r1 c1) = sha256hex E (keyString E r2 c2))
   \<and> (req_Method r1 = req_Method r2 \<and> req_Path r1 = req_Path r2 \<and>
       a \<in> set (CacheKeyQueryParams ec) \<and>
       Values_Get (req_Query r1) a \<noteq> Values_Get (req_Query r2) a \<and>
       (\<forall>p \<in> set (CacheKeyQueryParams ec). p \<noteq> a \<longrightarrow>
          Values_Get (req_Query r1) p = Values_Get (req_Query r2) p) \<and>
       (\<forall>h \<in> set (CacheKeyHeaders ec).
          Values_Get (req_Header r1) (canonicalKey E h) =
          Values_Get (req_Header r2) (canonicalKey E h)) \<and>
       (\<forall>p \<in> set (CacheKeyQueryParams ec). CHR ''='' \<notin> set p) \<longrightarrow>
      keyString E r1 (Some ec) \<noteq> keyString E r2 (Some ec))
   \<and> (req_Method r1 = req_Method r2 \<and> req_Path r1 = req_Path r2 \<and>
       b \<in> set (CacheKeyHeaders ec) \<and>
       Values_Get (req_Header r1) (canonicalKey E b) \<noteq>
       Values_Get (req_Header r2) (canonicalKey E b) \<and>
       (\<forall>h \<in> set (CacheKeyHeaders ec). h \<noteq> b \<longrightarrow>
          Values_Get (req_Header r1) (canonicalKey E h) =
          Values_Get (req_Header r2) (canonicalKey E h)) \<and>
       (\<forall>p \<in> set (CacheKeyQueryParams ec).
          Values_Get (req_Query r1) p = Values_Get (req_Query r2) p) \<and>
       (\<forall>h \<in> set (CacheKeyHeaders ec). CHR ''='' \<notin> set h) \<longrightarrow>
      keyString E r1 (Some ec) \<noteq> keyString E r2 (Some ec))"
proof (intro conjI impI)
  assume "req_Method r1 = req_Method r2 \<and> req_Path r1 = req_Path r2"
  then show "GenerateCacheKey E r1 None = GenerateCacheKey E r2 None"
    by (elim conjE) (rule key_no_rule; assumption)
next
  assume "req_Method r1 = req_Method r2 \<and> req_Path r1 = req_Path r2 \<and>
       (\<forall>p \<in> set (CacheKeyQueryParams ec).
          Values_Get (req_Query r1) p = Values_Get (req_Query r2) p) \<and>
       (\<forall>h \<in> set (CacheKeyHeaders ec).
          Values_Get (req_Header r1) (canonicalKey E h) =
          Values_Get (req_Header r2) (canonicalKey E h))"
  then show "GenerateCacheKey E r1 (Some ec) = GenerateCacheKey E r2 (Some ec)"
    by (elim conjE) (rule key_same_values; assumption)
next
  assume "q \<notin> set (CacheKeyQueryParams ec)"
  then show "GenerateCacheKey E (r\<lparr>req_Query := (req_Query r)(q := v)\<rparr>) (Some ec) =
        GenerateCacheKey E r (Some ec)"
    by (rule key_ignores_unlisted_param)
next
  assume "k \<notin> canonicalKey E ` set (CacheKeyHeaders ec)"
  then show "GenerateCacheKey E (r\<lparr>req_Header := (req_Header r)(k := v)\<rparr>) (Some ec) =
        GenerateCacheKey E r (Some ec)"
    by (rule key_ignores_unlisted_header)
next
  show "GenerateCacheKey E (r\<lparr>req_Query := (req_Query r)(q \<mapsto> x # xs)\<rparr>) (Some ec) =
       GenerateCacheKey E (r\<lparr>req_Query := (req_Query r)(q \<mapsto> x # ys)\<rparr>) (Some ec)"
    by (rule key_ignores_later_values)
next
  show "(GenerateCacheKey E r1 c1 = GenerateCacheKey E r2 c2) =
       (sha256hex E (keyString E r1 c1) = sha256hex E (keyString E r2 c2))"
    by (simp add: GenerateCacheKey_def)
next
  assume "req_Method r1 = req_Method r2 \<and> req_Path r1 = req_Path r2 \<and>
       a \<in> set (CacheKeyQueryParams ec) \<and>
       Values_Get (req_Query r1) a \<noteq> Values_Get (req_Query r2) a \<and>
       (\<forall>p \<in> set (CacheKeyQueryParams ec). p \<noteq> a \<longrightarrow>
          Values_Get (req_Query r1) p = Values_Get (req_Query r2) p) \<and>
       (\<forall>h \<in> set (CacheKeyHeaders ec).
          Values_Get (req_Header r1) (canonicalKey E h) =
          Values_Get (req_Header r2) (canonicalKey E h)) \<and>
       (\<forall>p \<in> set (CacheKeyQueryParams ec). CHR ''='' \<notin> set p)"
  then show "keyString E r1 (Some ec) \<noteq> keyString E r2 (Some ec)"
    by (elim conjE) (rule keyString_differs_query[where a = a]; assumption)
next
  assume "req_Method r1 = req_Method r2 \<and> req_Path r1 = req_Path r2 \<and>
       b \<in> set (CacheKeyHeaders ec) \<and>
       Values_Get (req_Header r1) (canonicalKey E b) \<noteq>
       Values_Get (req_Header r2) (canonicalKey E b) \<and>
       (\<forall>h \<in> set (CacheKeyHeaders ec). h \<noteq> b \<longrightarrow>
          Values_Get (req_Header r1) (canonicalKey E h) =
          Values_Get (req_Header r2) (canonicalKey E h)) \<and>
       (\<forall>p \<in> set (CacheKeyQueryParams ec).
          Values_Get (req_Query r1) p = Values_Get (req_Query r2) p) \<and>
       (\<forall>h \<in> set (CacheKeyHeaders ec). CHR ''='' \<notin> set h)"
  then show "keyString E r1 (Some ec) \<noteq> keyString E r2 (Some ec)"
    by (elim conjE) (rule keyString_differs_header[where a = b]; assumption)
qed

theorem cache_key_first_values_witness:
  "GenerateCacheKey sampleEnv (quoteRequest [''symbol'' \<mapsto> [''IBM''], ''page'' \<mapsto> [''1'']])
       (Some symbolRule) =
     GenerateCacheKey sampleEnv (quoteRequest [''symbol'' \<mapsto> [''IBM''], ''page'' \<mapsto> [''2'']])
       (Some symbolRule)
   \<and> ''page'' \<notin> set (CacheKeyQueryParams symbolRule)
   \<and> ''symbol'' \<in> set (CacheKeyQueryParams symbolRule)
   \<and> Values_Get (req_Query (quoteRequest [''symbol'' \<mapsto> [''AT&T'']])) ''symbol'' \<noteq>
     Values_Get (req_Query (quoteRequest [''symbol'' \<mapsto> [''A&T'']])) ''symbol''
   \<and> keyString sampleEnv (quoteRequest [''symbol'' \<mapsto> [''AT&T'']]) (Some symbolRule) \<noteq>
     keyString sampleEnv (quoteRequest [''symbol'' \<mapsto> [''A&T'']]) (Some symbolRule)
   \<and> ''Authorization'' \<in> set (CacheKeyHeaders symbolRule)
   \<and> keyString sampleEnv (quoteRequest [''symbol'' \<mapsto> [''IBM'']]) (Some symbolRule) \<noteq>
     keyString sampleEnv
       ((quoteRequest [''symbol'' \<mapsto> [''IBM'']])
          \<lparr>req_Header := [''Authorization'' \<mapsto> [''Bearer a|b'']]\<rparr>) (Some symbolRule)"
  using cache_key_first_values
          [where E = sampleEnv and ec = symbolRule and a = "''symbol''"
             and ?r1.0 = "quoteRequest [''symbol'' \<mapsto> [''AT&T'']]"
             and ?r2.0 = "quoteRequest [''symbol'' \<mapsto> [''A&T'']]"
             and r = "quoteRequest [''symbol'' \<mapsto> [''IBM''], ''page'' \<mapsto> [''1'']]"
             and q = "''page''" and v = "Some [''2'']"]
        cache_key_first_values
          [where E = sampleEnv and ec = symbolRule and b = "''Authorization''"
             and ?r1.0 = "quoteRequest [''symbol'' \<mapsto> [''IBM'']]"
             and ?r2.0 = "(quoteRequest [''symbol'' \<mapsto> [''IBM'']])
                             \<lparr>req_Header := [''Authorization'' \<mapsto> [''Bearer a|b'']]\<rparr>"]
  by (simp add: key_defs)

end
